theory Spec2Isabelle
  imports Complex_Main
begin

chapter \<open>Resilient dispatch engine of the resize system: model\<close>

text \<open>
  The JavaScript classes are embedded as state-passing functions. Every method takes the
  receiver (a record of the object's fields) and returns the updated receiver next to its
  return value. The clocks (\<open>Date.now()\<close>, \<open>performance.now()\<close>), the random source
  (\<open>Math.random()\<close>), the garbage collector behind \<open>WeakRef.deref()\<close> and the outcome of an
  awaited promise are inputs of the model: one reading of \<open>Date.now()\<close> stands for all reads
  inside one synchronous method body. JavaScript numbers are taken as exact: counters and
  millisecond time stamps are \<open>nat\<close> or \<open>int\<close>, rates and durations are \<open>real\<close>.
\<close>

section \<open>Promises and thrown values\<close>

text \<open>
  A thrown object, as far as the code reads it: its constructor's name and its message.
  A promise may also reject with \<open>undefined\<close> or \<open>null\<close> (\<open>Promise.reject()\<close>); reading
  \<open>.message\<close> or \<open>.constructor\<close> of such a value throws a \<open>TypeError\<close>.
\<close>

record js_error =
  ename :: string
  message :: string

text \<open>
  What awaiting a promise gives: the value it resolved with, the object it rejected with,
  or a rejection with \<open>undefined\<close> or \<open>null\<close>.
\<close>

datatype 'a outcome = Resolved 'a | Rejected js_error | RejectedNullish

text \<open>The \<open>TypeError\<close> of \<open>error.message\<close> when \<open>error\<close> is \<open>undefined\<close> or \<open>null\<close>.\<close>

definition unreadableMessage :: js_error where
  "unreadableMessage =
     \<lparr>ename = ''TypeError'',
      message = ''Cannot read properties of undefined (reading message)''\<rparr>"

section \<open>WeakRefCache (src/core/UltraStableResizeSystem.js)\<close>

text \<open>
  \<open>class WeakRefCache extends Map\<close>: the entries of a JavaScript \<open>Map\<close> are kept in
  insertion order, one per key, so the map is a list of pairs, oldest first. The stored
  \<open>WeakRef\<close> is represented by the value it was made from (an object: a \<open>WeakRef\<close> of
  anything else throws); whether \<open>deref()\<close> still finds it is decided by the garbage
  collector and is an argument of \<open>get\<close> and \<open>cleanup\<close>.
\<close>

record ('k, 'v) WeakRefCache =
  entries :: "('k \<times> 'v) list"
  maxSize :: int
  hitCount :: nat
  missCount :: nat

text \<open>\<open>constructor(maxSize = 1000)\<close>\<close>

definition WeakRefCache_new :: "int \<Rightarrow> ('k, 'v) WeakRefCache" where
  "WeakRefCache_new cap = \<lparr>entries = [], maxSize = cap, hitCount = 0, missCount = 0\<rparr>"

text \<open>\<open>Map.prototype.set\<close>: an existing key keeps its place, a new key goes last.\<close>

fun map_put :: "'k \<Rightarrow> 'v \<Rightarrow> ('k \<times> 'v) list \<Rightarrow> ('k \<times> 'v) list" where
  "map_put k v [] = [(k, v)]"
| "map_put k v ((k', v') # es) =
     (if k' = k then (k, v) # es else (k', v') # map_put k v es)"

text \<open>\<open>Map.prototype.delete\<close> and \<open>Map.prototype.keys\<close>.\<close>

definition map_delete :: "'k \<Rightarrow> ('k \<times> 'v) list \<Rightarrow> ('k \<times> 'v) list" where
  "map_delete k es = filter (\<lambda>p. fst p \<noteq> k) es"

definition map_keys :: "('k \<times> 'v) list \<Rightarrow> 'k list" where
  "map_keys es = map fst es"

text \<open>
  \<open>set(key, value)\<close>: when \<open>this.size >= this.maxSize\<close> the first key of the iteration order
  is deleted (on an empty map \<open>keys().next().value\<close> is \<open>undefined\<close> and nothing is deleted),
  then the pair is stored.
\<close>

definition WeakRefCache_set ::
  "'k \<Rightarrow> 'v \<Rightarrow> ('k, 'v) WeakRefCache \<Rightarrow> ('k, 'v) WeakRefCache" where
  "WeakRefCache_set key val c =
     (let es = (if int (length (entries c)) \<ge> maxSize c
                then (case map_keys (entries c) of
                        [] \<Rightarrow> entries c
                      | firstKey # _ \<Rightarrow> map_delete firstKey (entries c))
                else entries c)
      in c\<lparr>entries := map_put key val es\<rparr>)"

text \<open>
  \<open>get(key)\<close>: a missing key is a miss; a key whose referent was collected (\<open>alive\<close> is
  false) is deleted and is a miss; otherwise a hit.
\<close>

definition WeakRefCache_get ::
  "'k \<Rightarrow> bool \<Rightarrow> ('k, 'v) WeakRefCache \<Rightarrow> 'v option \<times> ('k, 'v) WeakRefCache" where
  "WeakRefCache_get key alive c =
     (case map_of (entries c) key of
        None \<Rightarrow> (None, c\<lparr>missCount := missCount c + 1\<rparr>)
      | Some v \<Rightarrow>
          if \<not> alive
          then (None, c\<lparr>entries := map_delete key (entries c), missCount := missCount c + 1\<rparr>)
          else (Some v, c\<lparr>hitCount := hitCount c + 1\<rparr>))"

definition WeakRefCache_delete :: "'k \<Rightarrow> ('k, 'v) WeakRefCache \<Rightarrow> ('k, 'v) WeakRefCache" where
  "WeakRefCache_delete key c = c\<lparr>entries := map_delete key (entries c)\<rparr>"

text \<open>\<open>cleanup()\<close> deletes every entry whose referent was collected.\<close>

definition cleanup :: "('k \<Rightarrow> bool) \<Rightarrow> ('k, 'v) WeakRefCache \<Rightarrow> ('k, 'v) WeakRefCache" where
  "cleanup collected c = c\<lparr>entries := filter (\<lambda>p. \<not> collected (fst p)) (entries c)\<rparr>"

definition WeakRefCache_clear :: "('k, 'v) WeakRefCache \<Rightarrow> ('k, 'v) WeakRefCache" where
  "WeakRefCache_clear c = c\<lparr>entries := []\<rparr>"

text \<open>A sequence of cache operations, run from left to right.\<close>

datatype ('k, 'v) cache_op =
    Set 'k 'v
  | Get 'k bool
  | Delete 'k
  | Cleanup "'k \<Rightarrow> bool"
  | Clear

fun cache_step :: "('k, 'v) WeakRefCache \<Rightarrow> ('k, 'v) cache_op \<Rightarrow> ('k, 'v) WeakRefCache" where
  "cache_step c (Set k v) = WeakRefCache_set k v c"
| "cache_step c (Get k alive) = snd (WeakRefCache_get k alive c)"
| "cache_step c (Delete k) = WeakRefCache_delete k c"
| "cache_step c (Cleanup collected) = cleanup collected c"
| "cache_step c Clear = WeakRefCache_clear c"

definition cache_run ::
  "('k, 'v) WeakRefCache \<Rightarrow> ('k, 'v) cache_op list \<Rightarrow> ('k, 'v) WeakRefCache" where
  "cache_run c ops = foldl cache_step c ops"

text \<open>What a \<open>Map\<close> guarantees (one entry per key) and the capacity bound.\<close>

definition cache_wf :: "('k, 'v) WeakRefCache \<Rightarrow> bool" where
  "cache_wf c \<longleftrightarrow> distinct (map_keys (entries c)) \<and> int (length (entries c)) \<le> maxSize c"

section \<open>CircuitBreaker (src/stability/CircuitBreaker.js)\<close>

datatype breaker_state = CLOSED | OPEN | HALF_OPEN

record breaker_config =
  failureThreshold :: int
  recoveryTimeout :: int
  monitoringWindow :: int
  successThreshold :: int

text \<open>Both breaker classes have a \<open>state\<close> field; records of time-stamped events share \<open>timestamp\<close>.\<close>

record breaker_core =
  state :: breaker_state

record stamped =
  timestamp :: int

record failure = stamped +
  failure_error :: string

record CircuitBreaker = breaker_core +
  failureCount :: nat
  successCount :: nat
  lastFailureTime :: "int option"
  failureHistory :: "failure list"

definition CircuitBreaker_new :: CircuitBreaker where
  "CircuitBreaker_new =
     \<lparr>state = CLOSED, failureCount = 0, successCount = 0, lastFailureTime = None,
      failureHistory = []\<rparr>"

text \<open>
  \<open>Date.now() - this.lastFailureTime >= this.config.recoveryTimeout\<close>; in the subtraction
  the initial \<open>null\<close> counts as 0.
\<close>

definition lastFailureTime_number :: "CircuitBreaker \<Rightarrow> int" where
  "lastFailureTime_number b = (case lastFailureTime b of None \<Rightarrow> 0 | Some t \<Rightarrow> t)"

definition shouldAttemptRecovery :: "breaker_config \<Rightarrow> int \<Rightarrow> CircuitBreaker \<Rightarrow> bool" where
  "shouldAttemptRecovery cfg now b \<longleftrightarrow> now - lastFailureTime_number b \<ge> recoveryTimeout cfg"

definition reset :: "CircuitBreaker \<Rightarrow> CircuitBreaker" where
  "reset b = b\<lparr>state := CLOSED, failureCount := 0, successCount := 0, failureHistory := []\<rparr>"

definition onSuccess :: "breaker_config \<Rightarrow> CircuitBreaker \<Rightarrow> CircuitBreaker" where
  "onSuccess cfg b =
     (let b1 = b\<lparr>successCount := successCount b + 1\<rparr>
      in if state b1 = HALF_OPEN
         then (if int (successCount b1) \<ge> successThreshold cfg then reset b1 else b1)
         else b1)"

definition cleanFailureHistory :: "breaker_config \<Rightarrow> int \<Rightarrow> CircuitBreaker \<Rightarrow> CircuitBreaker" where
  "cleanFailureHistory cfg now b =
     (let cutoff = now - monitoringWindow cfg
      in b\<lparr>failureHistory := filter (\<lambda>f. timestamp f > cutoff) (failureHistory b)\<rparr>)"

definition shouldOpenCircuit :: "breaker_config \<Rightarrow> CircuitBreaker \<Rightarrow> bool" where
  "shouldOpenCircuit cfg b \<longleftrightarrow> int (failureCount b) \<ge> failureThreshold cfg"

definition openCircuit :: "CircuitBreaker \<Rightarrow> CircuitBreaker" where
  "openCircuit b = b\<lparr>state := OPEN, successCount := 0\<rparr>"

text \<open>
  \<open>onFailure(error)\<close>. The caught value is an object (\<open>Some\<close>) or \<open>undefined\<close>/\<open>null\<close>
  (\<open>None\<close>). The count and \<open>lastFailureTime\<close> are written first; then the history entry
  reads \<open>error.message\<close>, which throws for \<open>undefined\<close>/\<open>null\<close>: the method is left
  there, before the history is cleaned and before the threshold is tested. The result is
  the error thrown, if any, and the breaker as the method leaves it.
\<close>

definition onFailure ::
  "breaker_config \<Rightarrow> int \<Rightarrow> js_error option \<Rightarrow> CircuitBreaker \<Rightarrow>
   js_error option \<times> CircuitBreaker" where
  "onFailure cfg now caught b =
     (let b0 = b\<lparr>failureCount := failureCount b + 1, lastFailureTime := Some now\<rparr>
      in case caught of
           None \<Rightarrow> (Some unreadableMessage, b0)
         | Some err \<Rightarrow>
             (let b1 = b0\<lparr>failureHistory :=
                           failureHistory b0 @
                           [\<lparr>timestamp = now, failure_error = message err\<rparr>]\<rparr>;
                  b2 = cleanFailureHistory cfg now b1
              in (None, if shouldOpenCircuit cfg b2 then openCircuit b2 else b2)))"

text \<open>
  The \<open>fallback\<close> argument is a function, whose awaited outcome is given, or a plain value
  (\<open>null\<close> by default) that is returned as it is.
\<close>

datatype 'a fallback = FallbackFunction "'a outcome" | FallbackValue 'a

definition executeFallback :: "'a fallback \<Rightarrow> 'a outcome" where
  "executeFallback fb = (case fb of FallbackFunction r \<Rightarrow> r | FallbackValue v \<Rightarrow> Resolved v)"

text \<open>
  \<open>execute(operation, fallback)\<close>. \<open>now\<close> is the clock when \<open>execute\<close> is entered,
  \<open>operation\<close> is what awaiting \<open>operation()\<close> gives and \<open>settled\<close> the clock when it has
  settled. The result is what the promise of \<open>execute\<close> settles with, whether
  \<open>operation\<close> was invoked, and the breaker afterwards. An error thrown by \<open>onFailure\<close>
  inside the \<open>catch\<close> block leaves \<open>execute\<close>: the promise rejects with it and the
  fallback is not run.
\<close>

definition after_onFailure ::
  "'a fallback \<Rightarrow> js_error option \<times> CircuitBreaker \<Rightarrow> 'a outcome \<times> bool \<times> CircuitBreaker" where
  "after_onFailure fb r =
     (case r of
        (None, b') \<Rightarrow> (executeFallback fb, True, b')
      | (Some thrown, b') \<Rightarrow> (Rejected thrown, True, b'))"

definition execute ::
  "breaker_config \<Rightarrow> int \<Rightarrow> 'a outcome \<Rightarrow> int \<Rightarrow> 'a fallback \<Rightarrow> CircuitBreaker \<Rightarrow>
   'a outcome \<times> bool \<times> CircuitBreaker" where
  "execute cfg now operation settled fb b =
     (if state b = OPEN \<and> \<not> shouldAttemptRecovery cfg now b
      then (executeFallback fb, False, b)
      else
        (let b1 = (if state b = OPEN then b\<lparr>state := HALF_OPEN\<rparr> else b)
         in case operation of
              Resolved result \<Rightarrow> (Resolved result, True, onSuccess cfg b1)
            | Rejected err \<Rightarrow> after_onFailure fb (onFailure cfg settled (Some err) b1)
            | RejectedNullish \<Rightarrow> after_onFailure fb (onFailure cfg settled None b1)))"

text \<open>One call of \<open>execute\<close> and a sequence of calls on the same breaker.\<close>

record call_times =
  calledAt :: int
  settledAt :: int

record 'a call = call_times +
  outcome_of :: "'a outcome"

fun run_calls ::
  "breaker_config \<Rightarrow> 'a fallback \<Rightarrow> CircuitBreaker \<Rightarrow> 'a call list \<Rightarrow>
   ('a outcome \<times> bool) list \<times> CircuitBreaker" where
  "run_calls cfg fb b [] = ([], b)"
| "run_calls cfg fb b (c # cs) =
     (case execute cfg (calledAt c) (outcome_of c) (settledAt c) fb b of
        (r, invoked, b') \<Rightarrow>
          (case run_calls cfg fb b' cs of (rs, b'') \<Rightarrow> ((r, invoked) # rs, b'')))"

text \<open>
  A call whose operation rejects with an object, and the number of calls that invoked their
  operation.
\<close>

definition rejects :: "'a call \<Rightarrow> bool" where
  "rejects c =
     (case outcome_of c of
        Resolved _ \<Rightarrow> False
      | Rejected _ \<Rightarrow> True
      | RejectedNullish \<Rightarrow> False)"

definition invocations :: "('a outcome \<times> bool) list \<Rightarrow> nat" where
  "invocations rs = length (filter snd rs)"

text \<open>
  The states the class can be in: \<open>HALF_OPEN\<close> and \<open>OPEN\<close> are entered only from a breaker
  whose failure count has reached the threshold, and the count falls only in \<open>reset\<close>.
\<close>

definition breaker_inv :: "breaker_config \<Rightarrow> CircuitBreaker \<Rightarrow> bool" where
  "breaker_inv cfg b \<longleftrightarrow> state b = CLOSED \<or> int (failureCount b) \<ge> failureThreshold cfg"

section \<open>SmartCircuitBreaker (src/core/UltraStableResizeSystem.js)\<close>

record smart_config = breaker_config +
  adaptiveLearning :: bool

record timed = stamped +
  duration :: real

record smart_failure = timed +
  failure_message :: string
  failure_type :: string

record error_pattern =
  count :: nat
  avgDuration :: real
  pattern_strategies :: "string list"

record SmartCircuitBreaker = breaker_core +
  failures :: "smart_failure list"
  successes :: "timed list"
  errorPatterns :: "string \<rightharpoonup> error_pattern"

definition SmartCircuitBreaker_new :: SmartCircuitBreaker where
  "SmartCircuitBreaker_new =
     \<lparr>state = CLOSED, failures = [], successes = [], errorPatterns = Map.empty\<rparr>"

text \<open>
  The object that \<open>executeGracefulFallback\<close> here and \<open>gracefulDegradation\<close> of the recovery
  system return; \<open>error\<close> is \<open>error?.message\<close>, undefined when no error is passed,
  and \<open>degraded_context\<close> is the field \<open>context\<close>.
\<close>

record 'c degraded_result =
  success :: bool
  mode :: string
  error :: "string option"
  fallbackActive :: bool
  degraded_context :: 'c

text \<open>
  What a call gives: the operation's value, the degraded object, or (\<open>Rejects\<close>) a
  rejection of the returned promise with an error thrown inside the call.
\<close>

datatype ('a, 'c) result = Value 'a | Degraded "'c degraded_result" | Rejects js_error

definition executeGracefulFallback :: "'c \<Rightarrow> js_error option \<Rightarrow> 'c degraded_result" where
  "executeGracefulFallback ctx err =
     \<lparr>success = False, mode = ''degraded'', error = map_option message err,
      fallbackActive = True, degraded_context = ctx\<rparr>"

definition cleanupOldRecords ::
  "smart_config \<Rightarrow> int \<Rightarrow> SmartCircuitBreaker \<Rightarrow> SmartCircuitBreaker" where
  "cleanupOldRecords cfg now b =
     (let cutoff = now - monitoringWindow cfg
      in b\<lparr>failures := filter (\<lambda>f. timestamp f > cutoff) (failures b),
            successes := filter (\<lambda>s. timestamp s > cutoff) (successes b)\<rparr>)"

definition recordSuccess ::
  "smart_config \<Rightarrow> int \<Rightarrow> real \<Rightarrow> SmartCircuitBreaker \<Rightarrow> SmartCircuitBreaker" where
  "recordSuccess cfg now dur b =
     (let b1 = b\<lparr>successes := successes b @ [\<lparr>timestamp = now, duration = dur\<rparr>]\<rparr>;
          b2 = cleanupOldRecords cfg now b1
      in if state b2 = HALF_OPEN \<and> int (length (successes b2)) \<ge> successThreshold cfg
         then b2\<lparr>state := CLOSED\<rparr>
         else b2)"

definition analyzeErrorPattern ::
  "smart_config \<Rightarrow> smart_failure \<Rightarrow> SmartCircuitBreaker \<Rightarrow> SmartCircuitBreaker" where
  "analyzeErrorPattern cfg f b =
     (if \<not> adaptiveLearning cfg then b
      else
        (let pattern = (case errorPatterns b (failure_type f) of
                          None \<Rightarrow> \<lparr>count = 0, avgDuration = 0, pattern_strategies = []\<rparr>
                        | Some p \<Rightarrow> p);
             pattern' = pattern\<lparr>count := count pattern + 1,
                                avgDuration := (avgDuration pattern + duration f) / 2\<rparr>
         in b\<lparr>errorPatterns := (errorPatterns b)(failure_type f \<mapsto> pattern')\<rparr>))"

definition smart_shouldOpenCircuit :: "smart_config \<Rightarrow> int \<Rightarrow> SmartCircuitBreaker \<Rightarrow> bool" where
  "smart_shouldOpenCircuit cfg now b \<longleftrightarrow>
     int (length (filter (\<lambda>f. now - timestamp f < monitoringWindow cfg) (failures b)))
       \<ge> failureThreshold cfg"

text \<open>
  \<open>lastFailure && Date.now() - lastFailure.timestamp >= recoveryTimeout\<close>: with no recorded
  failure \<open>lastFailure\<close> is undefined and the test is falsy.
\<close>

definition smart_shouldAttemptRecovery ::
  "smart_config \<Rightarrow> int \<Rightarrow> SmartCircuitBreaker \<Rightarrow> bool" where
  "smart_shouldAttemptRecovery cfg now b \<longleftrightarrow>
     (case failures b of
        [] \<Rightarrow> False
      | _ # _ \<Rightarrow> now - timestamp (last (failures b)) \<ge> recoveryTimeout cfg)"

definition smart_openCircuit :: "SmartCircuitBreaker \<Rightarrow> SmartCircuitBreaker" where
  "smart_openCircuit b = b\<lparr>state := OPEN, successes := []\<rparr>"

definition recordFailure ::
  "smart_config \<Rightarrow> int \<Rightarrow> js_error \<Rightarrow> real \<Rightarrow> SmartCircuitBreaker \<Rightarrow> SmartCircuitBreaker" where
  "recordFailure cfg now err dur b =
     (let f = \<lparr>timestamp = now, duration = dur, failure_message = message err,
               failure_type = ename err\<rparr>;
          b1 = b\<lparr>failures := failures b @ [f]\<rparr>;
          b2 = analyzeErrorPattern cfg f b1;
          b3 = cleanupOldRecords cfg now b2
      in if smart_shouldOpenCircuit cfg now b3 then smart_openCircuit b3 else b3)"

text \<open>
  \<open>Promise.race([operation(), this.createTimeoutPromise(5000)])\<close>. The operation settles
  before the timer fires, after it would have fired, or never. The timer rejects with a
  timeout error unless \<open>abortController.abort()\<close> (from \<open>destroy()\<close>) cleared it while the
  call was in flight; then the race waits for the operation, for ever if it never settles.
\<close>

datatype 'a flight =
    SettlesInTime "'a outcome"
  | SettlesLate "'a outcome"
  | NeverSettles

definition timeoutError :: js_error where
  "timeoutError = \<lparr>ename = ''Error'', message = ''Operation timeout after 5000ms''\<rparr>"

definition race :: "'a flight \<Rightarrow> bool \<Rightarrow> 'a outcome option" where
  "race fl abortedInFlight =
     (case fl of
        SettlesInTime out \<Rightarrow> Some out
      | SettlesLate out \<Rightarrow> if abortedInFlight then Some out else Some (Rejected timeoutError)
      | NeverSettles \<Rightarrow> if abortedInFlight then None else Some (Rejected timeoutError))"

text \<open>
  \<open>execute(operation, context)\<close>; \<open>None\<close> when the returned promise never settles. \<open>now\<close>
  is \<open>Date.now()\<close> on entry, \<open>settled\<close> is \<open>Date.now()\<close> and \<open>dur\<close> the measured
  \<open>performance.now() - startTime\<close> when the race has settled. When the race rejects with
  \<open>undefined\<close> or \<open>null\<close>, \<open>recordFailure\<close> throws on \<open>error.message\<close> before it changes
  the breaker, and the call rejects with that error.
\<close>

definition smart_execute ::
  "smart_config \<Rightarrow> int \<Rightarrow> 'a flight \<Rightarrow> bool \<Rightarrow> int \<Rightarrow> real \<Rightarrow> 'c \<Rightarrow> SmartCircuitBreaker \<Rightarrow>
   (('a, 'c) result \<times> bool \<times> SmartCircuitBreaker) option" where
  "smart_execute cfg now fl abortedInFlight settled dur ctx b =
     (if state b = OPEN \<and> \<not> smart_shouldAttemptRecovery cfg now b
      then Some (Degraded (executeGracefulFallback ctx None), False, b)
      else
        (let b1 = (if state b = OPEN then b\<lparr>state := HALF_OPEN\<rparr> else b)
         in case race fl abortedInFlight of
              None \<Rightarrow> None
            | Some (Resolved r) \<Rightarrow> Some (Value r, True, recordSuccess cfg settled dur b1)
            | Some (Rejected err) \<Rightarrow>
                Some (Degraded (executeGracefulFallback ctx (Some err)), True,
                      recordFailure cfg settled err dur b1)
            | Some RejectedNullish \<Rightarrow> Some (Rejects unreadableMessage, True, b1)))"

text \<open>A sequence of calls on the same breaker; \<open>None\<close> when one of them never returns.\<close>

record 'a smart_call = call_times +
  in_flight :: "'a flight"
  abortedInFlight :: bool
  measured :: real

fun smart_run_calls ::
  "smart_config \<Rightarrow> 'c \<Rightarrow> SmartCircuitBreaker \<Rightarrow> 'a smart_call list \<Rightarrow>
   ((('a, 'c) result \<times> bool) list \<times> SmartCircuitBreaker) option" where
  "smart_run_calls cfg c b [] = Some ([], b)"
| "smart_run_calls cfg c b (x # xs) =
     (case smart_execute cfg (calledAt x) (in_flight x) (abortedInFlight x) (settledAt x)
             (measured x) c b of
        None \<Rightarrow> None
      | Some (r, invoked, b') \<Rightarrow>
          (case smart_run_calls cfg c b' xs of
             None \<Rightarrow> None
           | Some (rs, b'') \<Rightarrow> Some ((r, invoked) # rs, b'')))"

section \<open>ErrorRecoverySystem (src/stability/ErrorRecoverySystem.js)\<close>

record recovery_config =
  maxRetryAttempts :: int
  retryDelay :: real
  backoffMultiplier :: real
  maxBackoffDelay :: real
  enableLearning :: bool

text \<open>The defaults of the constructor.\<close>

definition default_recovery_config :: recovery_config where
  "default_recovery_config =
     \<lparr>maxRetryAttempts = 3, retryDelay = 1000, backoffMultiplier = 2, maxBackoffDelay = 10000,
      enableLearning = True\<rparr>"

text \<open>The \<open>context\<close> object; a recovery may replace its \<open>elements\<close>.\<close>

record 'e recovery_context =
  elements :: "'e list option"

text \<open>
  What a recovery strategy returns, \<open>{success, strategy, recoveredElements}\<close>, unless it
  throws.
\<close>

record 'e recovery_result =
  recovery_success :: bool
  strategy :: string
  recoveredElements :: "'e list option"

datatype 'e strategy_run = StrategyReturns "'e recovery_result" | StrategyThrows js_error

type_synonym 'e recovery_strategy = "js_error \<Rightarrow> 'e recovery_context \<Rightarrow> 'e strategy_run"

record 'e history_entry = stamped +
  history_error :: string
  attempts :: int
  history_success :: bool
  history_context :: "'e recovery_context"

record 'e ErrorRecoverySystem =
  recoveryStrategies :: "string \<rightharpoonup> 'e recovery_strategy"
  recoveryHistory :: "'e history_entry list"
  successfulStrategies :: "string \<rightharpoonup> nat"
  failedStrategies :: "string \<rightharpoonup> nat"

definition registerStrategy ::
  "string \<Rightarrow> 'e recovery_strategy \<Rightarrow> 'e ErrorRecoverySystem \<Rightarrow> 'e ErrorRecoverySystem" where
  "registerStrategy errorType strat s =
     s\<lparr>recoveryStrategies := (recoveryStrategies s)(errorType \<mapsto> strat)\<rparr>"

text \<open>
  The five default strategies, in a browser where their helpers (\<open>window.gc\<close>, the
  \<open>document\<close> queries, all of them logging stubs in the source) do not throw. Only the DOM
  strategy recovers elements: \<open>reFindElements\<close> returns the empty array.
\<close>

definition registerDefaultStrategies :: "'e ErrorRecoverySystem \<Rightarrow> 'e ErrorRecoverySystem" where
  "registerDefaultStrategies s =
     registerStrategy ''NetworkError''
       (\<lambda>err c. StrategyReturns
          \<lparr>recovery_success = True, strategy = ''network_recovery'', recoveredElements = None\<rparr>)
     (registerStrategy ''DOMError''
       (\<lambda>err c. StrategyReturns
          \<lparr>recovery_success = True, strategy = ''dom_recovery'', recoveredElements = Some []\<rparr>)
     (registerStrategy ''ReferenceError''
       (\<lambda>err c. StrategyReturns
          \<lparr>recovery_success = True, strategy = ''reference_recovery'', recoveredElements = None\<rparr>)
     (registerStrategy ''TypeError''
       (\<lambda>err c. StrategyReturns
          \<lparr>recovery_success = True, strategy = ''type_recovery'', recoveredElements = None\<rparr>)
     (registerStrategy ''MemoryError''
       (\<lambda>err c. StrategyReturns
          \<lparr>recovery_success = True, strategy = ''memory_cleanup'', recoveredElements = None\<rparr>)
      s))))"

definition ErrorRecoverySystem_new :: "'e ErrorRecoverySystem" where
  "ErrorRecoverySystem_new =
     registerDefaultStrategies
       \<lparr>recoveryStrategies = Map.empty, recoveryHistory = [],
        successfulStrategies = Map.empty, failedStrategies = Map.empty\<rparr>"

text \<open>The learning tallies, keyed by \<open>errorType:strategy\<close>; a missing tally counts as 0.\<close>

definition tally_key :: "string \<Rightarrow> string \<Rightarrow> string" where
  "tally_key errorType strat = errorType @ '':'' @ strat"

definition recordStrategySuccess ::
  "string \<Rightarrow> string \<Rightarrow> 'e ErrorRecoverySystem \<Rightarrow> 'e ErrorRecoverySystem" where
  "recordStrategySuccess errorType strat s =
     (let key = tally_key errorType strat;
          current = (case successfulStrategies s key of None \<Rightarrow> 0 | Some n \<Rightarrow> n)
      in s\<lparr>successfulStrategies := (successfulStrategies s)(key \<mapsto> current + 1)\<rparr>)"

definition recordStrategyFailure ::
  "string \<Rightarrow> string \<Rightarrow> 'e ErrorRecoverySystem \<Rightarrow> 'e ErrorRecoverySystem" where
  "recordStrategyFailure errorType strat s =
     (let key = tally_key errorType strat;
          current = (case failedStrategies s key of None \<Rightarrow> 0 | Some n \<Rightarrow> n)
      in s\<lparr>failedStrategies := (failedStrategies s)(key \<mapsto> current + 1)\<rparr>)"

text \<open>
  \<open>attemptRecovery(error, context)\<close>: without a strategy for the error's constructor name
  the answer is \<open>{success: false, strategy: 'none'}\<close>; a strategy that throws gives
  \<open>{success: false, strategy: 'failed'}\<close>.
\<close>

definition attemptRecovery ::
  "recovery_config \<Rightarrow> js_error \<Rightarrow> 'e recovery_context \<Rightarrow> 'e ErrorRecoverySystem \<Rightarrow>
   'e recovery_result \<times> 'e ErrorRecoverySystem" where
  "attemptRecovery cfg err c s =
     (let errorType = ename err
      in case recoveryStrategies s errorType of
           None \<Rightarrow>
             (\<lparr>recovery_success = False, strategy = ''none'', recoveredElements = None\<rparr>, s)
         | Some strat \<Rightarrow>
             (case strat err c of
                StrategyReturns recoveryResult \<Rightarrow>
                  (recoveryResult,
                   if enableLearning cfg \<and> recovery_success recoveryResult
                   then recordStrategySuccess errorType (strategy recoveryResult) s
                   else s)
              | StrategyThrows recoveryError \<Rightarrow>
                  (\<lparr>recovery_success = False, strategy = ''failed'', recoveredElements = None\<rparr>,
                   if enableLearning cfg then recordStrategyFailure errorType ''unknown'' s
                   else s)))"

text \<open>
  \<open>calculateBackoffDelay(attempt)\<close>: \<open>Math.min(retryDelay * Math.pow(backoffMultiplier,
  attempt - 1), maxBackoffDelay)\<close>, on exact reals. The retry loop calls it with
  \<open>attempt \<ge> 1\<close>.
\<close>

definition calculateBackoffDelay :: "recovery_config \<Rightarrow> int \<Rightarrow> real" where
  "calculateBackoffDelay cfg attempt =
     (let delay = retryDelay cfg * power_int (backoffMultiplier cfg) (attempt - 1)
      in min delay (maxBackoffDelay cfg))"

definition gracefulDegradation ::
  "js_error \<Rightarrow> 'e recovery_context \<Rightarrow> 'e recovery_context degraded_result" where
  "gracefulDegradation err c =
     \<lparr>success = False, mode = ''degraded'', error = Some (message err), fallbackActive = True,
      degraded_context = c\<rparr>"

definition recordRecoverySuccess ::
  "int \<Rightarrow> js_error \<Rightarrow> int \<Rightarrow> 'e recovery_context \<Rightarrow> 'e ErrorRecoverySystem \<Rightarrow>
   'e ErrorRecoverySystem" where
  "recordRecoverySuccess now err n c s =
     s\<lparr>recoveryHistory := recoveryHistory s @
         [\<lparr>timestamp = now, history_error = ename err, attempts = n, history_success = True,
           history_context = c\<rparr>]\<rparr>"

definition recordRecoveryFailure ::
  "int \<Rightarrow> js_error \<Rightarrow> int \<Rightarrow> 'e recovery_context \<Rightarrow> 'e ErrorRecoverySystem \<Rightarrow>
   'e ErrorRecoverySystem" where
  "recordRecoveryFailure now err n c s =
     s\<lparr>recoveryHistory := recoveryHistory s @
         [\<lparr>timestamp = now, history_error = ename err, attempts = n, history_success = False,
           history_context = c\<rparr>]\<rparr>"

text \<open>
  The variables of \<open>executeWithRecovery\<close> while it runs, with two observations added: how
  often \<open>operation\<close> has been invoked and the delays slept so far.
\<close>

record 'e retry_state =
  attempt :: int
  lastError :: "js_error option"
  ctx :: "'e recovery_context"
  sys :: "'e ErrorRecoverySystem"
  calls :: nat
  sleeps :: "real list"

text \<open>
  How the \<open>while\<close> loop is left: by \<open>return result\<close>, by falling out of it (the condition
  fails or \<open>break\<close>), or by a \<open>TypeError\<close>: when \<open>error.constructor\<close> is read from
  \<open>null\<close>, or when the \<open>catch\<close> block reads \<open>error.message\<close> (for its log line, after
  \<open>lastError = error; attempt++\<close>) of a rejection with \<open>undefined\<close> or \<open>null\<close>.
\<close>

datatype ('a, 'e) loop_exit =
    LoopReturn 'a "'e retry_state"
  | LoopEnd "'e retry_state"
  | LoopThrows js_error "'e retry_state"

definition nullError :: js_error where
  "nullError =
     \<lparr>ename = ''TypeError'', message = ''Cannot read properties of null (reading constructor)''\<rparr>"

text \<open>
  The loop. \<open>operation k\<close> is what the invocation number \<open>k\<close> (from 0) of \<open>operation()\<close>
  gives; \<open>now\<close> is \<open>Date.now()\<close> where the history is written.
\<close>

function retry_loop ::
  "recovery_config \<Rightarrow> int \<Rightarrow> (nat \<Rightarrow> 'a outcome) \<Rightarrow> 'e retry_state \<Rightarrow> ('a, 'e) loop_exit" where
  "retry_loop cfg now operation st =
     (if attempt st < maxRetryAttempts cfg then
        (case operation (calls st) of
           Resolved result \<Rightarrow>
             (if attempt st > 0 then
                (case lastError st of
                   None \<Rightarrow> LoopThrows nullError (st\<lparr>calls := calls st + 1\<rparr>)
                 | Some lastErr \<Rightarrow>
                     LoopReturn result
                       (st\<lparr>calls := calls st + 1,
                           sys := recordRecoverySuccess now lastErr (attempt st) (ctx st) (sys st)\<rparr>))
              else LoopReturn result (st\<lparr>calls := calls st + 1\<rparr>))
         | Rejected err \<Rightarrow>
             (if attempt st + 1 < maxRetryAttempts cfg then
                (case attemptRecovery cfg err (ctx st) (sys st) of
                   (recoveryResult, s') \<Rightarrow>
                     if recovery_success recoveryResult then
                       retry_loop cfg now operation
                         (st\<lparr>attempt := attempt st + 1, lastError := Some err,
                             calls := calls st + 1, sys := s',
                             sleeps := sleeps st @ [calculateBackoffDelay cfg (attempt st + 1)],
                             ctx := (case recoveredElements recoveryResult of
                                       None \<Rightarrow> ctx st
                                     | Some els \<Rightarrow> (ctx st)\<lparr>elements := Some els\<rparr>)\<rparr>)
                     else
                       LoopEnd (st\<lparr>attempt := attempt st + 1, lastError := Some err,
                                   calls := calls st + 1, sys := s'\<rparr>))
              else
                retry_loop cfg now operation
                  (st\<lparr>attempt := attempt st + 1, lastError := Some err,
                      calls := calls st + 1\<rparr>))
         | RejectedNullish \<Rightarrow>
             LoopThrows unreadableMessage
               (st\<lparr>attempt := attempt st + 1, lastError := None, calls := calls st + 1\<rparr>))
      else LoopEnd st)"
  by pat_completeness auto
termination
  by (relation "measure (\<lambda>(cfg, now, operation, st). nat (maxRetryAttempts cfg - attempt st))")
     auto

text \<open>
  \<open>executeWithRecovery(operation, context)\<close>: what the call returns (\<open>Inr\<close>) or throws
  (\<open>Inl\<close>), and the final variables. After the loop \<open>recordRecoveryFailure(lastError, ...)\<close>
  reads \<open>lastError.constructor\<close>, which throws when no attempt was made. An error thrown
  inside the loop's \<open>catch\<close> block leaves the call as it is.
\<close>

definition executeWithRecovery ::
  "recovery_config \<Rightarrow> int \<Rightarrow> (nat \<Rightarrow> 'a outcome) \<Rightarrow> 'e recovery_context \<Rightarrow>
   'e ErrorRecoverySystem \<Rightarrow>
   (js_error + ('a, 'e recovery_context) result) \<times> 'e retry_state" where
  "executeWithRecovery cfg now operation c s =
     (case retry_loop cfg now operation
             \<lparr>attempt = 0, lastError = None, ctx = c, sys = s, calls = 0, sleeps = []\<rparr> of
        LoopReturn result st \<Rightarrow> (Inr (Value result), st)
      | LoopThrows e st \<Rightarrow> (Inl e, st)
      | LoopEnd st \<Rightarrow>
          (case lastError st of
             None \<Rightarrow> (Inl nullError, st)
           | Some lastErr \<Rightarrow>
               (Inr (Degraded (gracefulDegradation lastErr (ctx st))),
                st\<lparr>sys := recordRecoveryFailure now lastErr (attempt st) (ctx st) (sys st)\<rparr>)))"

text \<open>
  The last invocation of \<open>operation\<close> was made, it rejected, and \<open>lastError\<close> holds its
  error.
\<close>

definition failed_last :: "(nat \<Rightarrow> 'a outcome) \<Rightarrow> 'e retry_state \<Rightarrow> bool" where
  "failed_last operation st \<longleftrightarrow>
     0 < calls st \<and>
     (case operation (calls st - 1) of
        Resolved _ \<Rightarrow> False
      | Rejected e \<Rightarrow> lastError st = Some e
      | RejectedNullish \<Rightarrow> False)"

section \<open>Throttling (PerformanceOptimizer.js and UltraStableResizeSystemV2)\<close>

record throttle_config =
  throttleRate :: real
  performanceBudget :: real

record optimizer_config = throttle_config +
  adaptiveThrottling :: bool

record PerformanceOptimizer =
  config :: optimizer_config
  skippedFrames :: nat
  lastFrameTime :: real
  frameCount :: nat
  fps :: "real option"
  performanceHistory :: "real list"
  adaptiveMultiplier :: real

text \<open>
  \<open>calculateAdaptiveThrottling()\<close>: the configured rate, moved by the mean of the last ten
  process times when more than ten are recorded, times the device multiplier, capped at 0.99.
\<close>

definition calculateAdaptiveThrottling :: "PerformanceOptimizer \<Rightarrow> real" where
  "calculateAdaptiveThrottling po =
     (let budget = performanceBudget (config po);
          adaptiveRate = throttleRate (config po);
          hist = performanceHistory po;
          adaptiveRate' =
            (if length hist > 10 then
               (let recentAverage = sum_list (drop (length hist - 10) hist) / 10
                in if recentAverage > budget * 0.8 then min 0.99 (adaptiveRate + 0.01)
                   else if recentAverage < budget * 0.3 then max 0.90 (adaptiveRate - 0.005)
                   else adaptiveRate)
             else adaptiveRate)
      in min 0.99 (adaptiveRate' * adaptiveMultiplier po))"

text \<open>The rate \<open>shouldProcessFrame\<close> works with.\<close>

definition effectiveThrottleRate :: "PerformanceOptimizer \<Rightarrow> real" where
  "effectiveThrottleRate po =
     (if adaptiveThrottling (config po) then calculateAdaptiveThrottling po
      else throttleRate (config po))"

text \<open>
  \<open>shouldProcessFrame()\<close>, with \<open>performance.now()\<close> and \<open>Math.random()\<close> as arguments.
  The frame is skipped when \<open>Math.random() > (1 - effectiveThrottleRate)\<close>. The frame rate
  is \<open>None\<close> where the source divides by a zero frame time.
\<close>

definition shouldProcessFrame ::
  "real \<Rightarrow> real \<Rightarrow> PerformanceOptimizer \<Rightarrow> bool \<times> PerformanceOptimizer" where
  "shouldProcessFrame currentTime random po =
     (let frameTime = currentTime - lastFrameTime po;
          po1 = po\<lparr>frameCount := frameCount po + 1\<rparr>;
          po2 = (if frameCount po1 mod 60 = 0
                 then po1\<lparr>fps := (if frameTime = 0 then None
                                     else Some (1000 / (frameTime / 60)))\<rparr>
                 else po1);
          rate = effectiveThrottleRate po2
      in if random > 1 - rate
         then (False, po2\<lparr>skippedFrames := skippedFrames po2 + 1\<rparr>)
         else (True, po2\<lparr>lastFrameTime := currentTime\<rparr>))"

text \<open>\<open>UltraStableResizeSystemV2.shouldProcessResize()\<close>: \<open>Math.random() > throttleRate\<close>.\<close>

definition shouldProcessResize :: "'z throttle_config_scheme \<Rightarrow> real \<Rightarrow> bool" where
  "shouldProcessResize cfg random \<longleftrightarrow> random > throttleRate cfg"

section \<open>Choice of the processing backend (UltraStableResizeSystemV2)\<close>

text \<open>
  What the platform does for one element: whether the GPU processor and the worker manager
  report support, what \<open>GPUProcessor.processGeometry\<close> computes (\<open>None\<close> when it caught an
  error and returned \<open>null\<close>), what awaiting \<open>WorkerManager.processInWorker\<close> gives (it
  rejects on a worker error or after its 5 s timeout) and what the CPU path measures.
  \<open>processWithCPU\<close> returns a promise that is resolved inside a
  \<open>requestAnimationFrame\<close> callback and has no reject path: \<open>cpuData\<close> is \<open>None\<close> when
  that callback throws (\<open>getBoundingClientRect\<close>, \<open>getComputedStyle\<close>) or never runs, and
  the promise then never settles.
\<close>

record 'd platform =
  gpuSupported :: bool
  workersSupported :: bool
  gpuGeometry :: "'d option"
  workerReply :: "'d outcome"
  cpuData :: "'d option"

text \<open>The per-element options: \<open>config.enableGPU !== false\<close>, \<open>config.enableWorkers !== false\<close>.\<close>

record element_config =
  enableGPU :: bool
  enableWorkers :: bool

record 'd process_result =
  process_success :: bool
  process_method :: string
  process_data :: 'd

record process_metrics =
  gpuAccelerated :: nat
  workerProcessed :: nat

text \<open>
  Each \<open>processWith...\<close> gives its result (\<open>None\<close> when its promise never settles), the
  updated counters and the backends it ran, in order.
\<close>

definition processGeometry :: "'d platform \<Rightarrow> 'd option" where
  "processGeometry p = (if \<not> gpuSupported p then None else gpuGeometry p)"

definition processWithCPU ::
  "'d platform \<Rightarrow> process_metrics \<Rightarrow>
   'd process_result option \<times> process_metrics \<times> string list" where
  "processWithCPU p m =
     (case cpuData p of
        None \<Rightarrow> (None, m, [''cpu''])
      | Some d \<Rightarrow>
          (Some \<lparr>process_success = True, process_method = ''cpu'', process_data = d\<rparr>, m,
           [''cpu'']))"

definition processWithGPU ::
  "'d platform \<Rightarrow> process_metrics \<Rightarrow>
   'd process_result option \<times> process_metrics \<times> string list" where
  "processWithGPU p m =
     (case processGeometry p of
        Some g \<Rightarrow>
          (Some \<lparr>process_success = True, process_method = ''gpu'', process_data = g\<rparr>,
           m\<lparr>gpuAccelerated := gpuAccelerated m + 1\<rparr>, [''gpu''])
      | None \<Rightarrow>
          (case processWithCPU p m of (r, m', tr) \<Rightarrow> (r, m', ''gpu'' # tr)))"

definition processWithWorker ::
  "'d platform \<Rightarrow> process_metrics \<Rightarrow>
   'd process_result option \<times> process_metrics \<times> string list" where
  "processWithWorker p m =
     (case workerReply p of
        Resolved d \<Rightarrow>
          (Some \<lparr>process_success = True, process_method = ''worker'', process_data = d\<rparr>,
           m\<lparr>workerProcessed := workerProcessed m + 1\<rparr>, [''worker''])
      | Rejected err \<Rightarrow>
          (case processWithCPU p m of (r, m', tr) \<Rightarrow> (r, m', ''worker'' # tr))
      | RejectedNullish \<Rightarrow>
          (case processWithCPU p m of (r, m', tr) \<Rightarrow> (r, m', ''worker'' # tr)))"

text \<open>The block "Process with best available method" of \<open>safeRegisterElement\<close>.\<close>

definition selected_method :: "'d platform \<Rightarrow> element_config \<Rightarrow> string" where
  "selected_method p ec =
     (if gpuSupported p \<and> enableGPU ec then ''gpu''
      else if workersSupported p \<and> enableWorkers ec then ''worker''
      else ''cpu'')"

definition process_element ::
  "'d platform \<Rightarrow> element_config \<Rightarrow> process_metrics \<Rightarrow>
   'd process_result option \<times> process_metrics \<times> string list" where
  "process_element p ec m =
     (if gpuSupported p \<and> enableGPU ec then processWithGPU p m
      else if workersSupported p \<and> enableWorkers ec then processWithWorker p m
      else processWithCPU p m)"

text \<open>The backend that was chosen did not deliver: the GPU gave \<open>null\<close>, the worker rejected.\<close>

definition selected_fails :: "'d platform \<Rightarrow> element_config \<Rightarrow> bool" where
  "selected_fails p ec \<longleftrightarrow>
     (if selected_method p ec = ''gpu'' then gpuGeometry p = None
      else if selected_method p ec = ''worker''
      then (case workerReply p of
              Resolved _ \<Rightarrow> False
            | Rejected _ \<Rightarrow> True
            | RejectedNullish \<Rightarrow> True)
      else False)"

section \<open>Inputs of the examples\<close>

text \<open>
  The breaker of the test "should open circuit after failure threshold" of
  tests/stability.test.js: the defaults with \<open>failureThreshold: 3\<close> and
  \<open>recoveryTimeout: 1000\<close>, an operation that rejects with \<open>new Error('Failure')\<close> and the
  fallback \<open>() => Promise.resolve('fallback')\<close>.
\<close>

definition test_breaker_config :: breaker_config where
  "test_breaker_config =
     \<lparr>failureThreshold = 3, recoveryTimeout = 1000, monitoringWindow = 60000,
      successThreshold = 3\<rparr>"

definition test_failure :: js_error where
  "test_failure = \<lparr>ename = ''Error'', message = ''Failure''\<rparr>"

definition test_fallback :: "string fallback" where
  "test_fallback = FallbackFunction (Resolved ''fallback'')"

definition three_failures :: "string call list" where
  "three_failures =
     [\<lparr>calledAt = 0, settledAt = 5, outcome_of = Rejected test_failure\<rparr>,
      \<lparr>calledAt = 10, settledAt = 15, outcome_of = Rejected test_failure\<rparr>,
      \<lparr>calledAt = 20, settledAt = 25, outcome_of = Rejected test_failure\<rparr>]"

text \<open>
  The same breaker with an operation that rejects without a value (\<open>Promise.reject()\<close>),
  called four times.
\<close>

definition valueless_failures :: "string call list" where
  "valueless_failures =
     [\<lparr>calledAt = 0, settledAt = 5, outcome_of = RejectedNullish\<rparr>,
      \<lparr>calledAt = 10, settledAt = 15, outcome_of = RejectedNullish\<rparr>,
      \<lparr>calledAt = 20, settledAt = 25, outcome_of = RejectedNullish\<rparr>,
      \<lparr>calledAt = 30, settledAt = 35, outcome_of = RejectedNullish\<rparr>]"

text \<open>
  A smart breaker with the default settings but \<open>failureThreshold: 2\<close>. Two calls fail
  one second apart; the third call comes 70 s later, after the recovery timeout (5 s) and
  after the monitoring window (60 s), and fails too; a fourth call follows at once.
\<close>

definition smart_test_config :: smart_config where
  "smart_test_config =
     \<lparr>failureThreshold = 2, recoveryTimeout = 5000, monitoringWindow = 60000,
      successThreshold = 3, adaptiveLearning = True\<rparr>"

definition failing_call :: "int \<Rightarrow> string smart_call" where
  "failing_call t =
     \<lparr>calledAt = t, settledAt = t + 10, in_flight = SettlesInTime (Rejected test_failure),
      abortedInFlight = False, measured = 10\<rparr>"

definition late_probe :: "string smart_call list" where
  "late_probe = [failing_call 0, failing_call 1000, failing_call 70000, failing_call 70020]"

text \<open>What is looked at after a run: which calls invoked the operation, and the breaker.\<close>

definition smart_summary ::
  "((('a, 'c) result \<times> bool) list \<times> SmartCircuitBreaker) option \<Rightarrow>
   (bool list \<times> breaker_state \<times> int list) option" where
  "smart_summary r =
     map_option (\<lambda>(rs, b). (map snd rs, state b, map timestamp (failures b))) r"

text \<open>
  A cancelled operation: the host aborts while the call is in flight and the operation
  rejects with an \<open>AbortError\<close>.
\<close>

definition abortError :: js_error where
  "abortError = \<lparr>ename = ''AbortError'', message = ''The operation was aborted''\<rparr>"

definition cancelled_call :: "string smart_call" where
  "cancelled_call =
     \<lparr>calledAt = 0, settledAt = 10, in_flight = SettlesInTime (Rejected abortError),
      abortedInFlight = True, measured = 10\<rparr>"

text \<open>
  A platform with GPU and workers where \<open>processGeometry\<close> fails for the element (it
  returns \<open>null\<close>) and the CPU path then measures it, registered with the default options.
\<close>

definition gpu_fails :: "string platform" where
  "gpu_fails =
     \<lparr>gpuSupported = True, workersSupported = True, gpuGeometry = None,
      workerReply = Resolved ''from worker'', cpuData = Some ''from cpu''\<rparr>"

text \<open>A platform without GPU whose worker call rejects after its timeout.\<close>

definition worker_fails :: "string platform" where
  "worker_fails =
     \<lparr>gpuSupported = False, workersSupported = True, gpuGeometry = None,
      workerReply = Rejected \<lparr>ename = ''Error'', message = ''Worker timeout''\<rparr>,
      cpuData = Some ''from cpu''\<rparr>"

definition default_element_config :: element_config where
  "default_element_config = \<lparr>enableGPU = True, enableWorkers = True\<rparr>"

definition no_metrics :: process_metrics where
  "no_metrics = \<lparr>gpuAccelerated = 0, workerProcessed = 0\<rparr>"

text \<open>An optimizer that never throttles, and one with the default rate on a fresh history.\<close>

definition optimizer :: "real \<Rightarrow> PerformanceOptimizer" where
  "optimizer rate =
     \<lparr>config = \<lparr>throttleRate = rate, performanceBudget = 16, adaptiveThrottling = True\<rparr>,
      skippedFrames = 0, lastFrameTime = 0, frameCount = 0, fps = Some 60,
      performanceHistory = [], adaptiveMultiplier = 1\<rparr>"

chapter \<open>Properties\<close>

section \<open>WeakRefCache\<close>

lemma map_put_keys:
  "map_keys (map_put k v es) = (if k \<in> set (map_keys es) then map_keys es else map_keys es @ [k])"
  by (induction es) (force simp: map_keys_def)+

lemma map_put_fresh: "k \<notin> set (map_keys es) \<Longrightarrow> map_put k v es = es @ [(k, v)]"
  by (induction es) (auto simp: map_keys_def)

lemma map_put_length:
  "length (map_put k v es) = (if k \<in> set (map_keys es) then length es else Suc (length es))"
  by (induction es) (force simp: map_keys_def)+

lemma map_of_map_put: "map_of (map_put k v es) = (map_of es)(k \<mapsto> v)"
  by (induction es) auto

lemma map_delete_keys: "map_keys (map_delete k es) = removeAll k (map_keys es)"
  by (induction es) (auto simp: map_keys_def map_delete_def)

lemma map_delete_hd:
  "distinct (map_keys ((k, v) # es)) \<Longrightarrow> map_delete k ((k, v) # es) = es"
  by (induction es) (auto simp: map_keys_def map_delete_def)

lemma map_delete_length: "length (map_delete k es) \<le> length es"
  by (simp add: map_delete_def)

lemma distinct_map_put: "distinct (map_keys es) \<Longrightarrow> distinct (map_keys (map_put k v es))"
  by (simp add: map_put_keys)

lemma distinct_map_delete: "distinct (map_keys es) \<Longrightarrow> distinct (map_keys (map_delete k es))"
  by (simp add: map_delete_keys distinct_removeAll)

lemma distinct_filter_keys: "distinct (map_keys es) \<Longrightarrow> distinct (map_keys (filter P es))"
  by (simp add: map_keys_def distinct_map_filter)

text \<open>On a full, non-empty cache \<open>set\<close> drops the head of the list before it stores.\<close>

lemma set_full_entries:
  assumes "distinct (map_keys (entries c))"
    and "int (length (entries c)) \<ge> maxSize c"
    and "entries c \<noteq> []"
  shows "entries (WeakRefCache_set k v c) = map_put k v (tl (entries c))"
proof -
  obtain k0 v0 es where es: "entries c = (k0, v0) # es"
    using assms(3) by (cases "entries c") auto
  have "map_delete k0 (entries c) = es"
    using assms(1) unfolding es by (rule map_delete_hd)
  then show ?thesis
    using assms(2) by (simp add: WeakRefCache_set_def es map_keys_def)
qed

lemma set_wf:
  assumes "cache_wf c" and "1 \<le> maxSize c"
  shows "cache_wf (WeakRefCache_set k v c)"
proof (cases "int (length (entries c)) \<ge> maxSize c")
  case True
  then have ne: "entries c \<noteq> []" using assms(2) by auto
  have d: "distinct (map_keys (entries c))" using assms(1) by (simp add: cache_wf_def)
  have e: "entries (WeakRefCache_set k v c) = map_put k v (tl (entries c))"
    using set_full_entries[OF d True ne] .
  have dt: "distinct (map_keys (tl (entries c)))"
    using d ne by (cases "entries c") (auto simp: map_keys_def)
  have "length (map_put k v (tl (entries c))) \<le> Suc (length (tl (entries c)))"
    by (simp add: map_put_length)
  also have "\<dots> = length (entries c)" using ne by simp
  finally have "int (length (map_put k v (tl (entries c)))) \<le> maxSize c"
    using assms(1) by (simp add: cache_wf_def)
  moreover have "maxSize (WeakRefCache_set k v c) = maxSize c"
    by (simp add: WeakRefCache_set_def Let_def)
  ultimately show ?thesis
    using distinct_map_put[OF dt] e by (simp add: cache_wf_def)
next
  case False
  have d: "distinct (map_keys (entries c))" using assms(1) by (simp add: cache_wf_def)
  have "length (map_put k v (entries c)) \<le> Suc (length (entries c))"
    by (simp add: map_put_length)
  then show ?thesis
    using False distinct_map_put[OF d] by (simp add: cache_wf_def WeakRefCache_set_def)
qed

lemma step_wf:
  assumes "cache_wf c" and "1 \<le> maxSize c"
  shows "cache_wf (cache_step c op) \<and> maxSize (cache_step c op) = maxSize c"
proof (cases op)
  case (Set k v)
  then show ?thesis using set_wf[OF assms] by (simp add: WeakRefCache_set_def Let_def)
next
  case (Get k alive)
  have "length (map_delete k (entries c)) \<le> length (entries c)" by (rule map_delete_length)
  then show ?thesis using assms(1) Get
    by (auto simp: WeakRefCache_get_def cache_wf_def distinct_map_delete split: option.splits)
next
  case (Delete k)
  have "length (map_delete k (entries c)) \<le> length (entries c)" by (rule map_delete_length)
  then show ?thesis using assms(1) Delete
    by (auto simp: WeakRefCache_delete_def cache_wf_def distinct_map_delete)
next
  case (Cleanup collected)
  have "length (filter (\<lambda>p. \<not> collected (fst p)) (entries c)) \<le> length (entries c)" by simp
  then show ?thesis using assms(1) Cleanup
    by (auto simp: cleanup_def cache_wf_def distinct_filter_keys simp del: length_filter_le)
next
  case Clear
  then show ?thesis using assms by (auto simp: WeakRefCache_clear_def cache_wf_def map_keys_def)
qed

lemma run_wf:
  "cache_wf c \<Longrightarrow> 1 \<le> maxSize c \<Longrightarrow>
   cache_wf (cache_run c ops) \<and> maxSize (cache_run c ops) = maxSize c"
  unfolding cache_run_def
proof (induction ops arbitrary: c)
  case Nil
  then show ?case by simp
next
  case (Cons op ops)
  have s: "cache_wf (cache_step c op)" "maxSize (cache_step c op) = maxSize c"
    using step_wf[OF Cons.prems] by auto
  show ?case using Cons.IH[of "cache_step c op"] s Cons.prems(2) by simp
qed

text \<open>
  Claim C8, as stated, fails: \<open>set\<close> always stores its entry, so a cache made with
  capacity 0 (\<open>new WeakRefCache(0)\<close>) holds one entry after the first \<open>set\<close>; on the empty
  map there is no first key to delete.
\<close>

theorem capacity_zero_stores_one_entry:
  "entries (cache_run (WeakRefCache_new 0) [Set (1::nat) ''a'']) = [(1, ''a'')] \<and>
   maxSize (cache_run (WeakRefCache_new 0 :: (nat, string) WeakRefCache) [Set 1 ''a'']) = 0 \<and>
   \<not> int (length (entries (cache_run (WeakRefCache_new 0) [Set (1::nat) ''a'']))) \<le> 0"
  by (simp add: cache_run_def WeakRefCache_new_def WeakRefCache_set_def map_keys_def)

text \<open>
  Claim C8, amended. From an empty cache of capacity \<open>cap \<ge> 1\<close>, after any sequence of
  \<open>set\<close>, \<open>get\<close>, \<open>delete\<close>, \<open>cleanup\<close> and \<open>clear\<close> the number of stored entries is
  at most \<open>cap\<close>; and when the cache holds \<open>cap\<close> entries, a \<open>set\<close> of a key that is not
  stored (the one \<open>set\<close> that would take the size beyond the capacity) removes the oldest
  entry, no other, and appends the new one.
\<close>

theorem cache_capacity_and_single_eviction:
  assumes "1 \<le> cap"
  shows "int (length (entries (cache_run (WeakRefCache_new cap) ops))) \<le> cap \<and>
         (\<forall>k v. int (length (entries (cache_run (WeakRefCache_new cap) ops))) = cap \<and>
                k \<notin> set (map_keys (entries (cache_run (WeakRefCache_new cap) ops))) \<longrightarrow>
                entries (WeakRefCache_set k v (cache_run (WeakRefCache_new cap) ops)) =
                  tl (entries (cache_run (WeakRefCache_new cap) ops)) @ [(k, v)])"
proof -
  let ?c = "cache_run (WeakRefCache_new cap) ops"
  have wf0: "cache_wf (WeakRefCache_new cap :: ('a, 'b) WeakRefCache)"
    using assms by (simp add: cache_wf_def WeakRefCache_new_def map_keys_def)
  have m0: "1 \<le> maxSize (WeakRefCache_new cap :: ('a, 'b) WeakRefCache)"
    using assms by (simp add: WeakRefCache_new_def)
  have wf: "cache_wf ?c" and m: "maxSize ?c = cap"
    using run_wf[OF wf0 m0, of ops] by (simp_all add: WeakRefCache_new_def)
  have le: "int (length (entries ?c)) \<le> cap" using wf m by (simp add: cache_wf_def)
  have ev: "entries (WeakRefCache_set k v ?c) = tl (entries ?c) @ [(k, v)]"
    if full: "int (length (entries ?c)) = cap" and fresh: "k \<notin> set (map_keys (entries ?c))"
    for k v
  proof -
    have ne: "entries ?c \<noteq> []" using full assms by auto
    have d: "distinct (map_keys (entries ?c))" using wf by (simp add: cache_wf_def)
    have ge: "int (length (entries ?c)) \<ge> maxSize ?c" using full m by simp
    have "k \<notin> set (map_keys (tl (entries ?c)))"
      using fresh ne by (cases "entries ?c") (auto simp: map_keys_def)
    then show ?thesis
      using set_full_entries[OF d ge ne, of k v] by (simp add: map_put_fresh)
  qed
  show ?thesis using le ev by blast
qed

theorem cache_capacity_and_single_eviction_witness:
  "(1::int) \<le> 2 \<and>
   int (length (entries (cache_run (WeakRefCache_new 2)
          [Set (1::nat) ''a'', Set 2 ''b'', Get 1 True, Set 3 ''c'']))) \<le> 2 \<and>
   entries (WeakRefCache_set 4 ''d'' (cache_run (WeakRefCache_new 2)
          [Set (1::nat) ''a'', Set 2 ''b'', Get 1 True, Set 3 ''c''])) = [(3, ''c''), (4, ''d'')]"
proof -
  let ?ops = "[Set (1::nat) ''a'', Set 2 ''b'', Get 1 True, Set 3 ''c'']"
  have run: "entries (cache_run (WeakRefCache_new 2) ?ops) = [(2, ''b''), (3, ''c'')]"
    by (simp add: cache_run_def WeakRefCache_new_def WeakRefCache_set_def WeakRefCache_get_def
        map_keys_def map_delete_def)
  have h: "(1::int) \<le> 2" by simp
  show ?thesis
    using cache_capacity_and_single_eviction[OF h, of ?ops] run
    by (simp add: map_keys_def)
qed

text \<open>
  Claim C10. In a cache that holds as many entries as its capacity, \<open>set\<close> of a key that
  is stored, and is not the oldest one, deletes the oldest entry first and then overwrites
  the key in place: the oldest key is gone, every other entry is kept, and the cache ends
  one entry below its capacity.
\<close>

theorem full_cache_overwrite_evicts_oldest:
  assumes "distinct (map_keys (entries c))"
    and "int (length (entries c)) = maxSize c"
    and "key \<in> set (map_keys (entries c))"
    and "key \<noteq> hd (map_keys (entries c))"
  shows "entries (WeakRefCache_set key val c) = map_put key val (tl (entries c)) \<and>
         map_keys (entries (WeakRefCache_set key val c)) = tl (map_keys (entries c)) \<and>
         hd (map_keys (entries c)) \<notin> set (map_keys (entries (WeakRefCache_set key val c))) \<and>
         map_of (entries (WeakRefCache_set key val c)) key = Some val \<and>
         (\<forall>k. k \<noteq> key \<and> k \<noteq> hd (map_keys (entries c)) \<longrightarrow>
              map_of (entries (WeakRefCache_set key val c)) k = map_of (entries c) k) \<and>
         int (length (entries (WeakRefCache_set key val c))) = maxSize c - 1"
proof -
  obtain k0 v0 es where es: "entries c = (k0, v0) # es"
    using assms(3) by (cases "entries c") (auto simp: map_keys_def)
  have ne: "entries c \<noteq> []" by (simp add: es)
  have ge: "int (length (entries c)) \<ge> maxSize c" using assms(2) by simp
  have e: "entries (WeakRefCache_set key val c) = map_put key val es"
    using set_full_entries[OF assms(1) ge ne, of key val] by (simp add: es)
  have k0: "key \<noteq> k0" using assms(4) by (simp add: es map_keys_def)
  have mem: "key \<in> set (map_keys es)" using assms(3) k0 by (simp add: es map_keys_def)
  have fresh0: "k0 \<notin> set (map_keys es)" using assms(1) by (simp add: es map_keys_def)
  have keys: "map_keys (map_put key val es) = map_keys es" using mem by (simp add: map_put_keys)
  have len: "length (map_put key val es) = length es" using mem by (simp add: map_put_length)
  have others: "map_of (map_put key val es) k = map_of ((k0, v0) # es) k"
    if "k \<noteq> key \<and> k \<noteq> k0" for k
    using that by (simp add: map_of_map_put)
  show ?thesis
    unfolding e using keys len fresh0 others assms(2)
    by (simp add: es map_keys_def map_of_map_put)
qed

theorem full_cache_overwrite_evicts_oldest_witness:
  "entries (WeakRefCache_set (2::nat) ''z''
      \<lparr>entries = [(1, ''a''), (2, ''b''), (3, ''c'')], maxSize = 3, hitCount = 0, missCount = 0\<rparr>)
     = [(2, ''z''), (3, ''c'')]"
proof -
  let ?c = "\<lparr>entries = [(1::nat, ''a''), (2, ''b''), (3, ''c'')], maxSize = 3, hitCount = 0,
             missCount = 0\<rparr>"
  have "distinct (map_keys (entries ?c))" "int (length (entries ?c)) = maxSize ?c"
    "2 \<in> set (map_keys (entries ?c))" "2 \<noteq> hd (map_keys (entries ?c))"
    by (simp_all add: map_keys_def)
  from full_cache_overwrite_evicts_oldest[OF this, of "''z''"] show ?thesis by simp
qed

section \<open>ErrorRecoverySystem\<close>

lemma backoff_at_attempt:
  "1 \<le> n \<Longrightarrow> calculateBackoffDelay cfg n =
     min (retryDelay cfg * backoffMultiplier cfg ^ nat (n - 1)) (maxBackoffDelay cfg)"
  by (simp add: calculateBackoffDelay_def power_int_def)

lemma backoff_bounded: "calculateBackoffDelay cfg n \<le> maxBackoffDelay cfg"
  by (simp add: calculateBackoffDelay_def Let_def)

lemma backoff_mono:
  assumes "1 \<le> backoffMultiplier cfg" and "0 \<le> retryDelay cfg" and "1 \<le> m" and "m \<le> n"
  shows "calculateBackoffDelay cfg m \<le> calculateBackoffDelay cfg n"
proof -
  have "nat (m - 1) \<le> nat (n - 1)" using assms(3,4) by simp
  then have "backoffMultiplier cfg ^ nat (m - 1) \<le> backoffMultiplier cfg ^ nat (n - 1)"
    using assms(1) by (rule power_increasing)
  then have "retryDelay cfg * backoffMultiplier cfg ^ nat (m - 1)
      \<le> retryDelay cfg * backoffMultiplier cfg ^ nat (n - 1)"
    using assms(2) by (rule mult_left_mono)
  then show ?thesis
    using assms(3,4) by (simp add: backoff_at_attempt min_le_iff_disj)
qed

text \<open>
  Claim C6. For every attempt number \<open>n \<ge> 1\<close> the delay is
  \<open>min (retryDelay * backoffMultiplier ^ (n - 1)) maxBackoffDelay\<close>; for a multiplier of at
  least 1 (and a retry delay that is not negative, as a delay is) it does not decrease as
  \<open>n\<close> grows and never passes \<open>maxBackoffDelay\<close>; with \<open>retryDelay = 100\<close> and multiplier
  2 (and a cap of at least 400, the default being 10000) attempts 1, 2, 3 give 100, 200, 400.
\<close>

theorem backoff_delay_formula_monotone_bounded:
  "(\<forall>n. 1 \<le> n \<longrightarrow>
      calculateBackoffDelay cfg n =
        min (retryDelay cfg * backoffMultiplier cfg ^ nat (n - 1)) (maxBackoffDelay cfg)) \<and>
   (1 \<le> backoffMultiplier cfg \<and> 0 \<le> retryDelay cfg \<longrightarrow>
      (\<forall>m n. 1 \<le> m \<and> m \<le> n \<longrightarrow>
         calculateBackoffDelay cfg m \<le> calculateBackoffDelay cfg n) \<and>
      (\<forall>n. calculateBackoffDelay cfg n \<le> maxBackoffDelay cfg)) \<and>
   (retryDelay cfg = 100 \<and> backoffMultiplier cfg = 2 \<and> 400 \<le> maxBackoffDelay cfg \<longrightarrow>
      calculateBackoffDelay cfg 1 = 100 \<and> calculateBackoffDelay cfg 2 = 200 \<and>
      calculateBackoffDelay cfg 3 = 400)"
proof (intro conjI allI impI)
  fix n :: int assume "1 \<le> n"
  then show "calculateBackoffDelay cfg n =
      min (retryDelay cfg * backoffMultiplier cfg ^ nat (n - 1)) (maxBackoffDelay cfg)"
    by (rule backoff_at_attempt)
next
  fix m n :: int
  assume "1 \<le> backoffMultiplier cfg \<and> 0 \<le> retryDelay cfg" and "1 \<le> m \<and> m \<le> n"
  then show "calculateBackoffDelay cfg m \<le> calculateBackoffDelay cfg n"
    using backoff_mono by blast
next
  fix n show "calculateBackoffDelay cfg n \<le> maxBackoffDelay cfg" by (rule backoff_bounded)
next
  assume a: "retryDelay cfg = 100 \<and> backoffMultiplier cfg = 2 \<and> 400 \<le> maxBackoffDelay cfg"
  show "calculateBackoffDelay cfg 1 = 100" using a by (simp add: calculateBackoffDelay_def)
  show "calculateBackoffDelay cfg 2 = 200" using a by (simp add: calculateBackoffDelay_def)
  show "calculateBackoffDelay cfg 3 = 400" using a by (simp add: calculateBackoffDelay_def)
qed

theorem backoff_delay_formula_monotone_bounded_witness:
  "calculateBackoffDelay (default_recovery_config\<lparr>retryDelay := 100\<rparr>) 1 = 100 \<and>
   calculateBackoffDelay (default_recovery_config\<lparr>retryDelay := 100\<rparr>) 2 = 200 \<and>
   calculateBackoffDelay (default_recovery_config\<lparr>retryDelay := 100\<rparr>) 3 = 400 \<and>
   calculateBackoffDelay (default_recovery_config\<lparr>retryDelay := 100\<rparr>) 3
     \<le> calculateBackoffDelay (default_recovery_config\<lparr>retryDelay := 100\<rparr>) 9 \<and>
   calculateBackoffDelay (default_recovery_config\<lparr>retryDelay := 100\<rparr>) 9 \<le> 10000"
proof -
  let ?cfg = "default_recovery_config\<lparr>retryDelay := 100\<rparr>"
  have c: "retryDelay ?cfg = 100 \<and> backoffMultiplier ?cfg = 2 \<and> 400 \<le> maxBackoffDelay ?cfg"
    "1 \<le> backoffMultiplier ?cfg \<and> 0 \<le> retryDelay ?cfg" "maxBackoffDelay ?cfg = 10000"
    by (simp_all add: default_recovery_config_def)
  have o: "(1::int) \<le> 3 \<and> (3::int) \<le> 9" by simp
  from backoff_delay_formula_monotone_bounded[of ?cfg] c o show ?thesis
    by (metis (no_types))
qed

text \<open>
  When every invocation that the remaining attempts allow rejects with an object, the loop
  is left at its end (never by \<open>return\<close>, never by a throw) with the error of the last
  invocation in \<open>lastError\<close>.
\<close>

lemma retry_loop_all_fail:
  assumes "\<And>k. calls st \<le> k \<Longrightarrow>
             int k < int (calls st) + (maxRetryAttempts cfg - attempt st) \<Longrightarrow>
             \<exists>e. operation k = Rejected e"
    and "attempt st < maxRetryAttempts cfg \<or> failed_last operation st"
  shows "\<exists>st'. retry_loop cfg now operation st = LoopEnd st' \<and> failed_last operation st'"
  using assms
proof (induction cfg now operation st rule: retry_loop.induct)
  case (1 cfg now operation st)
  show ?case
  proof (cases "attempt st < maxRetryAttempts cfg")
    case False
    then have "retry_loop cfg now operation st = LoopEnd st" by simp
    then show ?thesis using False "1.prems"(2) by simp
  next
    case True
    obtain e where e: "operation (calls st) = Rejected e"
      using "1.prems"(1)[of "calls st"] True by auto
    have later: "\<exists>e. operation k = Rejected e"
      if "calls st + 1 \<le> k"
        and "int k < int (calls st + 1) + (maxRetryAttempts cfg - (attempt st + 1))" for k
      using "1.prems"(1)[of k] that by simp
    show ?thesis
    proof (cases "attempt st + 1 < maxRetryAttempts cfg")
      case more: True
      obtain rr s' where ar: "attemptRecovery cfg e (ctx st) (sys st) = (rr, s')" by force
      show ?thesis
      proof (cases "recovery_success rr")
        case ok: True
        define st' where "st' = st\<lparr>attempt := attempt st + 1, lastError := Some e,
                             calls := calls st + 1, sys := s',
                             sleeps := sleeps st @ [calculateBackoffDelay cfg (attempt st + 1)],
                             ctx := (case recoveredElements rr of
                                       None \<Rightarrow> ctx st
                                     | Some els \<Rightarrow> (ctx st)\<lparr>elements := Some els\<rparr>)\<rparr>"
        have step: "retry_loop cfg now operation st = retry_loop cfg now operation st'"
          by (subst retry_loop.simps) (simp add: True e more ar ok st'_def)
        have fl: "failed_last operation st'" by (simp add: failed_last_def st'_def e)
        have "\<exists>st''. retry_loop cfg now operation st' = LoopEnd st'' \<and>
            failed_last operation st''"
          unfolding st'_def
        proof (rule "1.IH"(1)[OF True e more ar[symmetric] ok])
          fix k
          assume "calls (st\<lparr>attempt := attempt st + 1, lastError := Some e,
                             calls := calls st + 1, sys := s',
                             sleeps := sleeps st @ [calculateBackoffDelay cfg (attempt st + 1)],
                             ctx := (case recoveredElements rr of
                                       None \<Rightarrow> ctx st
                                     | Some els \<Rightarrow> (ctx st)\<lparr>elements := Some els\<rparr>)\<rparr>) \<le> k"
            and "int k < int (calls (st\<lparr>attempt := attempt st + 1, lastError := Some e,
                             calls := calls st + 1, sys := s',
                             sleeps := sleeps st @ [calculateBackoffDelay cfg (attempt st + 1)],
                             ctx := (case recoveredElements rr of
                                       None \<Rightarrow> ctx st
                                     | Some els \<Rightarrow> (ctx st)\<lparr>elements := Some els\<rparr>)\<rparr>)) +
                  (maxRetryAttempts cfg - attempt (st\<lparr>attempt := attempt st + 1, lastError := Some e,
                             calls := calls st + 1, sys := s',
                             sleeps := sleeps st @ [calculateBackoffDelay cfg (attempt st + 1)],
                             ctx := (case recoveredElements rr of
                                       None \<Rightarrow> ctx st
                                     | Some els \<Rightarrow> (ctx st)\<lparr>elements := Some els\<rparr>)\<rparr>))"
          then show "\<exists>e. operation k = Rejected e" using later[of k] by simp
        next
          show "attempt (st\<lparr>attempt := attempt st + 1, lastError := Some e,
                             calls := calls st + 1, sys := s',
                             sleeps := sleeps st @ [calculateBackoffDelay cfg (attempt st + 1)],
                             ctx := (case recoveredElements rr of
                                       None \<Rightarrow> ctx st
                                     | Some els \<Rightarrow> (ctx st)\<lparr>elements := Some els\<rparr>)\<rparr>)
                  < maxRetryAttempts cfg \<or>
                failed_last operation (st\<lparr>attempt := attempt st + 1, lastError := Some e,
                             calls := calls st + 1, sys := s',
                             sleeps := sleeps st @ [calculateBackoffDelay cfg (attempt st + 1)],
                             ctx := (case recoveredElements rr of
                                       None \<Rightarrow> ctx st
                                     | Some els \<Rightarrow> (ctx st)\<lparr>elements := Some els\<rparr>)\<rparr>)"
            using fl unfolding st'_def by simp
        qed
        then show ?thesis using step by simp
      next
        case no: False
        have "retry_loop cfg now operation st =
            LoopEnd (st\<lparr>attempt := attempt st + 1, lastError := Some e,
                        calls := calls st + 1, sys := s'\<rparr>)"
          by (subst retry_loop.simps) (simp add: True e more ar no)
        then show ?thesis by (simp add: failed_last_def e)
      qed
    next
      case last: False
      define st' where "st' = st\<lparr>attempt := attempt st + 1, lastError := Some e,
                                  calls := calls st + 1\<rparr>"
      have step: "retry_loop cfg now operation st = retry_loop cfg now operation st'"
        by (subst retry_loop.simps) (simp add: True e last st'_def)
      have a': "\<not> attempt st' < maxRetryAttempts cfg" using last by (simp add: st'_def)
      have "retry_loop cfg now operation st' = LoopEnd st'"
        by (subst retry_loop.simps) (simp add: a')
      moreover have "failed_last operation st'" by (simp add: failed_last_def st'_def e)
      ultimately show ?thesis using step by simp
    qed
  qed
qed

text \<open>
  Rejections that carry an object. When at least one attempt is allowed and the operation
  rejects with an object on every allowed attempt (its invocations number 0 to
  \<open>maxRetryAttempts - 1\<close>), \<open>executeWithRecovery\<close> returns (it does not throw) the object
  \<open>{success: false, mode: 'degraded', error, fallbackActive: true, context}\<close>, where
  \<open>error\<close> is the message of the error of the last invocation made; that error is
  recorded in the history and not passed on.
\<close>

theorem exhausted_retries_return_degraded:
  assumes "0 < maxRetryAttempts cfg"
    and "\<And>k. int k < maxRetryAttempts cfg \<Longrightarrow> \<exists>e. operation k = Rejected e"
  shows "\<exists>st e. executeWithRecovery cfg now operation c s =
            (Inr (Degraded \<lparr>success = False, mode = ''degraded'', error = Some (message e),
                             fallbackActive = True, degraded_context = ctx st\<rparr>),
             st\<lparr>sys := recordRecoveryFailure now e (attempt st) (ctx st) (sys st)\<rparr>) \<and>
          0 < calls st \<and> operation (calls st - 1) = Rejected e"
proof -
  let ?st0 = "\<lparr>attempt = 0, lastError = None, ctx = c, sys = s, calls = 0, sleeps = []\<rparr>"
  have a: "attempt ?st0 < maxRetryAttempts cfg \<or> failed_last operation ?st0"
    using assms(1) by simp
  have r: "\<exists>e. operation k = Rejected e"
    if "calls ?st0 \<le> k" and "int k < int (calls ?st0) + (maxRetryAttempts cfg - attempt ?st0)"
    for k
    using assms(2)[of k] that by simp
  from retry_loop_all_fail[of ?st0 cfg operation now, OF r a]
  obtain st' where l: "retry_loop cfg now operation ?st0 = LoopEnd st'"
    and f: "failed_last operation st'" by blast
  from f obtain e where e: "0 < calls st'" "operation (calls st' - 1) = Rejected e"
    "lastError st' = Some e" by (auto simp: failed_last_def split: outcome.splits)
  show ?thesis
    using l e by (auto simp: executeWithRecovery_def gracefulDegradation_def)
qed

theorem exhausted_retries_return_degraded_witness:
  "\<exists>st e. executeWithRecovery default_recovery_config 0
        (\<lambda>k. if k < 3 then Rejected \<lparr>ename = ''TypeError'', message = ''x is undefined''\<rparr>
             else Resolved ())
        \<lparr>elements = None\<rparr> (ErrorRecoverySystem_new :: unit ErrorRecoverySystem) =
            (Inr (Degraded \<lparr>success = False, mode = ''degraded'', error = Some (message e),
                             fallbackActive = True, degraded_context = ctx st\<rparr>),
             st\<lparr>sys := recordRecoveryFailure 0 e (attempt st) (ctx st) (sys st)\<rparr>) \<and>
          0 < calls st \<and>
          (if calls st - 1 < 3
           then Rejected \<lparr>ename = ''TypeError'', message = ''x is undefined''\<rparr>
           else Resolved ()) = Rejected e"
  by (rule exhausted_retries_return_degraded) (simp_all add: default_recovery_config_def)

lemmas recovery_eval =
  executeWithRecovery_def default_recovery_config_def ErrorRecoverySystem_new_def
  registerDefaultStrategies_def registerStrategy_def attemptRecovery_def
  gracefulDegradation_def recordRecoveryFailure_def recordRecoverySuccess_def
  recordStrategySuccess_def recordStrategyFailure_def tally_key_def calculateBackoffDelay_def
  nullError_def Let_def

text \<open>
  Claim C7 (the code departs from it). An operation that rejects without a value
  (\<open>Promise.reject()\<close>) fails on every attempt, and \<open>executeWithRecovery\<close>, with the
  default configuration, throws on the first failure: the \<open>catch\<close> block reads
  \<open>error.message\<close> of \<open>undefined\<close> for its log line, so the \<open>TypeError\<close> leaves the call
  after one invocation and no degraded result is returned. With \<open>maxRetryAttempts = 0\<close>
  the call throws too, whatever the operation: no attempt is made and
  \<open>recordRecoveryFailure\<close> reads \<open>lastError.constructor\<close> of \<open>null\<close>.
\<close>

theorem valueless_rejection_is_thrown:
  "fst (executeWithRecovery default_recovery_config 0 (\<lambda>k. RejectedNullish :: unit outcome)
      \<lparr>elements = None\<rparr> (ErrorRecoverySystem_new :: unit ErrorRecoverySystem)) =
     Inl unreadableMessage \<and>
   calls (snd (executeWithRecovery default_recovery_config 0
      (\<lambda>k. RejectedNullish :: unit outcome)
      \<lparr>elements = None\<rparr> (ErrorRecoverySystem_new :: unit ErrorRecoverySystem))) = 1 \<and>
   fst (executeWithRecovery (default_recovery_config\<lparr>maxRetryAttempts := 0\<rparr>) 0
      (\<lambda>k. Rejected \<lparr>ename = ''Error'', message = ''Persistent failure''\<rparr> :: unit outcome)
      \<lparr>elements = None\<rparr> (ErrorRecoverySystem_new :: unit ErrorRecoverySystem)) =
     Inl nullError"
  by (simp add: recovery_eval)

text \<open>
  Claim C2 (the code departs from it). With \<open>maxRetryAttempts = 2\<close> and an operation that
  always rejects with a plain \<open>Error\<close>, for which no strategy is registered, the operation
  is invoked once, not twice: \<open>attemptRecovery\<close> answers \<open>success: false\<close> and the loop is
  left by \<open>break\<close>, with no sleep, before the degraded result is returned.
\<close>

theorem unregistered_error_single_attempt:
  "recoveryStrategies (ErrorRecoverySystem_new :: unit ErrorRecoverySystem) ''Error'' = None \<and>
   calls (snd (executeWithRecovery (default_recovery_config\<lparr>maxRetryAttempts := 2\<rparr>) 0
      (\<lambda>k. Rejected \<lparr>ename = ''Error'', message = ''Persistent failure''\<rparr> :: unit outcome)
      \<lparr>elements = None\<rparr> (ErrorRecoverySystem_new :: unit ErrorRecoverySystem))) = 1 \<and>
   sleeps (snd (executeWithRecovery (default_recovery_config\<lparr>maxRetryAttempts := 2\<rparr>) 0
      (\<lambda>k. Rejected \<lparr>ename = ''Error'', message = ''Persistent failure''\<rparr> :: unit outcome)
      \<lparr>elements = None\<rparr> (ErrorRecoverySystem_new :: unit ErrorRecoverySystem))) = [] \<and>
   fst (executeWithRecovery (default_recovery_config\<lparr>maxRetryAttempts := 2\<rparr>) 0
      (\<lambda>k. Rejected \<lparr>ename = ''Error'', message = ''Persistent failure''\<rparr> :: unit outcome)
      \<lparr>elements = None\<rparr> (ErrorRecoverySystem_new :: unit ErrorRecoverySystem)) =
     Inr (Degraded \<lparr>success = False, mode = ''degraded'', error = Some ''Persistent failure'',
                     fallbackActive = True, degraded_context = \<lparr>elements = None\<rparr>\<rparr>)"
  by (simp add: recovery_eval)

text \<open>
  The same holds for every configuration and every error kind without a strategy: the
  first failure ends the loop. With a registered strategy that succeeds (here the default
  one for \<open>TypeError\<close>) the second attempt is made.
\<close>

lemma no_strategy_single_attempt:
  assumes "1 < maxRetryAttempts cfg"
    and "operation 0 = Rejected e"
    and "recoveryStrategies s (ename e) = None"
  shows "calls (snd (executeWithRecovery cfg now operation c s)) = 1"
  using assms by (simp add: executeWithRecovery_def attemptRecovery_def Let_def)

lemma registered_error_two_attempts:
  "calls (snd (executeWithRecovery (default_recovery_config\<lparr>maxRetryAttempts := 2\<rparr>) 0
      (\<lambda>k. Rejected \<lparr>ename = ''TypeError'', message = ''Persistent failure''\<rparr> :: unit outcome)
      \<lparr>elements = None\<rparr> (ErrorRecoverySystem_new :: unit ErrorRecoverySystem))) = 2"
  by (simp add: recovery_eval)

text \<open>With no attempt allowed the call throws: \<open>lastError\<close> is still \<open>null\<close>.\<close>

lemma no_attempt_allowed_throws:
  "maxRetryAttempts cfg \<le> 0 \<Longrightarrow>
   fst (executeWithRecovery cfg now operation c s) = Inl nullError"
  by (simp add: executeWithRecovery_def)

section \<open>CircuitBreaker\<close>

lemma execute_short_circuit:
  "state b = OPEN \<Longrightarrow> \<not> shouldAttemptRecovery cfg now b \<Longrightarrow>
   execute cfg now op settled fb b = (executeFallback fb, False, b)"
  by (simp add: execute_def)

lemma execute_rejected:
  "\<not> (state b = OPEN \<and> \<not> shouldAttemptRecovery cfg now b) \<Longrightarrow>
   execute cfg now (Rejected e) settled fb b =
     (executeFallback fb, True,
      snd (onFailure cfg settled (Some e)
             (if state b = OPEN then b\<lparr>state := HALF_OPEN\<rparr> else b)))"
  by (auto simp: execute_def Let_def after_onFailure_def onFailure_def)

lemma onFailure_failureCount:
  "failureCount (snd (onFailure cfg t caught b)) = Suc (failureCount b)"
  by (simp add: onFailure_def Let_def cleanFailureHistory_def shouldOpenCircuit_def
      openCircuit_def split: option.splits)

lemma onFailure_lastFailureTime: "lastFailureTime (snd (onFailure cfg t caught b)) = Some t"
  by (simp add: onFailure_def Let_def cleanFailureHistory_def shouldOpenCircuit_def
      openCircuit_def split: option.splits)

lemma onFailure_state:
  "state (snd (onFailure cfg t (Some e) b)) =
     (if failureThreshold cfg \<le> int (Suc (failureCount b)) then OPEN else state b)"
  by (simp add: onFailure_def Let_def cleanFailureHistory_def shouldOpenCircuit_def
      openCircuit_def)

lemma onFailure_valueless_state: "state (snd (onFailure cfg t None b)) = state b"
  by (simp add: onFailure_def Let_def)

text \<open>
  A run of calls whose operations all reject with an object: every invocation adds one to
  the failure count, which nothing in the run lowers, and the breaker is open once the
  count has reached the threshold.
\<close>

lemma run_failing_calls:
  assumes "\<forall>c\<in>set cs. rejects c"
  shows "failureCount (snd (run_calls cfg fb b cs)) =
           failureCount b + invocations (fst (run_calls cfg fb b cs)) \<and>
         (invocations (fst (run_calls cfg fb b cs)) = 0 \<longrightarrow> snd (run_calls cfg fb b cs) = b) \<and>
         (0 < invocations (fst (run_calls cfg fb b cs)) \<longrightarrow>
            lastFailureTime (snd (run_calls cfg fb b cs)) \<in> Some ` settledAt ` set cs \<and>
            (failureThreshold cfg \<le> int (failureCount (snd (run_calls cfg fb b cs))) \<longrightarrow>
               state (snd (run_calls cfg fb b cs)) = OPEN))"
  using assms
proof (induction cs arbitrary: b)
  case Nil
  then show ?case by (simp add: invocations_def)
next
  case (Cons c cs)
  obtain e where e: "outcome_of c = Rejected e"
    using Cons.prems by (auto simp: rejects_def split: outcome.splits)
  have rest: "\<forall>c\<in>set cs. rejects c" using Cons.prems by simp
  show ?case
  proof (cases "state b = OPEN \<and> \<not> shouldAttemptRecovery cfg (calledAt c) b")
    case True
    then have ex: "execute cfg (calledAt c) (outcome_of c) (settledAt c) fb b =
        (executeFallback fb, False, b)"
      by (simp add: execute_short_circuit)
    obtain rs b' where r: "run_calls cfg fb b cs = (rs, b')" by force
    have "run_calls cfg fb b (c # cs) = ((executeFallback fb, False) # rs, b')"
      by (simp add: ex r)
    then show ?thesis using Cons.IH[OF rest, of b] r by (auto simp: invocations_def)
  next
    case False
    define b1 where "b1 = snd (onFailure cfg (settledAt c) (Some e)
        (if state b = OPEN then b\<lparr>state := HALF_OPEN\<rparr> else b))"
    have ex: "execute cfg (calledAt c) (outcome_of c) (settledAt c) fb b =
        (executeFallback fb, True, b1)"
      unfolding e b1_def by (rule execute_rejected[OF False])
    obtain rs b' where r: "run_calls cfg fb b1 cs = (rs, b')" by force
    have run: "run_calls cfg fb b (c # cs) = ((executeFallback fb, True) # rs, b')"
      by (simp add: ex r)
    have fc1: "failureCount b1 = Suc (failureCount b)"
      by (simp add: b1_def onFailure_failureCount)
    have lf1: "lastFailureTime b1 = Some (settledAt c)"
      by (simp add: b1_def onFailure_lastFailureTime)
    have st1: "failureThreshold cfg \<le> int (failureCount b1) \<Longrightarrow> state b1 = OPEN"
      unfolding fc1 by (simp add: b1_def onFailure_state)
    note ih = Cons.IH[OF rest, of b1, unfolded r fst_conv snd_conv]
    show ?thesis
    proof (cases "invocations rs = 0")
      case True
      then have "b' = b1" using ih by simp
      then show ?thesis using run True fc1 lf1 st1 by (simp add: invocations_def)
    next
      case False
      then show ?thesis using run ih fc1 by (auto simp: invocations_def)
    qed
  qed
qed

text \<open>While the breaker is open and the recovery timeout has not elapsed, no call gets through.\<close>

lemma run_short_circuits:
  assumes "state b = OPEN"
    and "\<forall>c\<in>set later. calledAt c - lastFailureTime_number b < recoveryTimeout cfg"
  shows "run_calls cfg fb b later = (map (\<lambda>c. (executeFallback fb, False)) later, b)"
  using assms(2)
proof (induction later)
  case Nil
  then show ?case by simp
next
  case (Cons c cs)
  have "\<not> shouldAttemptRecovery cfg (calledAt c) b"
    using Cons.prems by (simp add: shouldAttemptRecovery_def)
  then have "execute cfg (calledAt c) (outcome_of c) (settledAt c) fb b =
      (executeFallback fb, False, b)"
    using assms(1) by (simp add: execute_short_circuit)
  then show ?case using Cons by simp
qed

text \<open>
  Rejections that carry an object. Take any breaker and any sequence of calls of
  \<open>execute\<close> whose operations reject with an object. If at least \<open>failureThreshold\<close> of
  them (and at least one) were failed attempts, that is, invoked their operation, the
  breaker is \<open>OPEN\<close> afterwards, its \<open>lastFailureTime\<close> is the time of one of these
  failures, and every later call that is made less than \<open>recoveryTimeout\<close> after it,
  whatever its operation, returns the fallback's result without invoking the operation and
  leaves the breaker as it is. The breaker counts all failures since its last reset, so the
  failures need not lie within the monitoring window.
\<close>

theorem threshold_failures_open_and_short_circuit:
  assumes "\<forall>c\<in>set failing. rejects c"
    and "failureThreshold cfg \<le> int (invocations (fst (run_calls cfg fb b failing)))"
    and "0 < invocations (fst (run_calls cfg fb b failing))"
  shows "state (snd (run_calls cfg fb b failing)) = OPEN \<and>
         lastFailureTime (snd (run_calls cfg fb b failing)) \<in> Some ` settledAt ` set failing \<and>
         (\<forall>later.
            (\<forall>c\<in>set later.
               calledAt c - lastFailureTime_number (snd (run_calls cfg fb b failing))
                 < recoveryTimeout cfg) \<longrightarrow>
            run_calls cfg fb (snd (run_calls cfg fb b failing)) later =
              (map (\<lambda>c. (executeFallback fb, False)) later, snd (run_calls cfg fb b failing)))"
proof -
  let ?b = "snd (run_calls cfg fb b failing)"
  note r = run_failing_calls[OF assms(1), of cfg fb b]
  have "failureThreshold cfg \<le> int (failureCount ?b)" using r assms(2) by simp
  then have op: "state ?b = OPEN" and lf: "lastFailureTime ?b \<in> Some ` settledAt ` set failing"
    using r assms(3) by simp_all
  show ?thesis using op lf run_short_circuits[OF op] by blast
qed

lemmas breaker_eval =
  execute_def after_onFailure_def onFailure_def onSuccess_def reset_def cleanFailureHistory_def
  shouldOpenCircuit_def openCircuit_def shouldAttemptRecovery_def lastFailureTime_number_def
  executeFallback_def CircuitBreaker_new_def Let_def

lemma three_failures_run:
  "run_calls test_breaker_config test_fallback CircuitBreaker_new three_failures =
     ([(Resolved ''fallback'', True), (Resolved ''fallback'', True), (Resolved ''fallback'', True)],
      \<lparr>state = OPEN, failureCount = 3, successCount = 0, lastFailureTime = Some 25,
       failureHistory =
         [\<lparr>timestamp = 5, failure_error = ''Failure''\<rparr>,
          \<lparr>timestamp = 15, failure_error = ''Failure''\<rparr>,
          \<lparr>timestamp = 25, failure_error = ''Failure''\<rparr>]\<rparr>)"
  by (simp add: breaker_eval test_breaker_config_def test_failure_def test_fallback_def
      three_failures_def)

theorem threshold_failures_open_and_short_circuit_witness:
  "state (snd (run_calls test_breaker_config test_fallback CircuitBreaker_new three_failures))
     = OPEN \<and>
   run_calls test_breaker_config test_fallback
     (snd (run_calls test_breaker_config test_fallback CircuitBreaker_new three_failures))
     [\<lparr>calledAt = 30, settledAt = 31, outcome_of = Resolved ''success''\<rparr>,
      \<lparr>calledAt = 1024, settledAt = 1025, outcome_of = Rejected test_failure\<rparr>] =
     ([(Resolved ''fallback'', False), (Resolved ''fallback'', False)],
      snd (run_calls test_breaker_config test_fallback CircuitBreaker_new three_failures))"
proof -
  let ?later = "[\<lparr>calledAt = 30, settledAt = 31, outcome_of = Resolved ''success''\<rparr>,
      \<lparr>calledAt = 1024, settledAt = 1025, outcome_of = Rejected test_failure\<rparr>]"
  let ?b = "snd (run_calls test_breaker_config test_fallback CircuitBreaker_new three_failures)"
  have h1: "\<forall>c\<in>set three_failures. rejects c"
    by (simp add: three_failures_def rejects_def)
  have h2: "failureThreshold test_breaker_config \<le> int (invocations (fst
      (run_calls test_breaker_config test_fallback CircuitBreaker_new three_failures)))"
    unfolding three_failures_run by (simp add: invocations_def test_breaker_config_def)
  have h3: "0 < invocations (fst
      (run_calls test_breaker_config test_fallback CircuitBreaker_new three_failures))"
    unfolding three_failures_run by (simp add: invocations_def)
  have h4: "\<forall>c\<in>set ?later. calledAt c - lastFailureTime_number ?b
      < recoveryTimeout test_breaker_config"
    unfolding three_failures_run
    by (simp add: lastFailureTime_number_def test_breaker_config_def)
  from threshold_failures_open_and_short_circuit[OF h1 h2 h3] h4
  have "state ?b = OPEN"
    and "run_calls test_breaker_config test_fallback ?b ?later =
      (map (\<lambda>c. (executeFallback test_fallback, False)) ?later, ?b)"
    by blast+
  then show ?thesis by (simp add: executeFallback_def test_fallback_def)
qed

text \<open>
  Claim C1 (the code departs from it). With \<open>failureThreshold = 3\<close>, four calls whose
  operation rejects without a value (\<open>Promise.reject()\<close>) are four failed attempts, yet
  the breaker is still \<open>CLOSED\<close>: \<open>onFailure\<close> counts the failure and then throws on
  \<open>error.message\<close> before it tests the threshold. Each call rejects with that
  \<open>TypeError\<close> instead of returning the fallback's result, and the fourth call, made 5 ms
  after the third failure (the recovery timeout is 1000 ms), invokes the operation again.
\<close>

theorem valueless_rejections_never_open:
  "run_calls test_breaker_config test_fallback CircuitBreaker_new valueless_failures =
     ([(Rejected unreadableMessage, True), (Rejected unreadableMessage, True),
       (Rejected unreadableMessage, True), (Rejected unreadableMessage, True)],
      \<lparr>state = CLOSED, failureCount = 4, successCount = 0, lastFailureTime = Some 35,
       failureHistory = []\<rparr>)"
  by (simp add: breaker_eval test_breaker_config_def test_fallback_def valueless_failures_def)

text \<open>
  In this class \<open>OPEN\<close> and \<open>HALF_OPEN\<close> are reached only with a failure count at the
  threshold, and the count is lowered only by \<open>reset\<close>, which closes the breaker. So a
  failure in \<open>HALF_OPEN\<close> opens the breaker again and sets \<open>lastFailureTime\<close>.
\<close>

lemma breaker_inv_new: "breaker_inv cfg CircuitBreaker_new"
  by (simp add: breaker_inv_def CircuitBreaker_new_def)

lemma breaker_inv_onFailure:
  "breaker_inv cfg b \<Longrightarrow> breaker_inv cfg (snd (onFailure cfg t caught b))"
  by (cases caught)
    (auto simp: breaker_inv_def onFailure_state onFailure_valueless_state
      onFailure_failureCount)

lemma breaker_inv_onSuccess: "breaker_inv cfg b \<Longrightarrow> breaker_inv cfg (onSuccess cfg b)"
  by (auto simp: breaker_inv_def onSuccess_def reset_def Let_def)

lemma after_onFailure_breaker: "snd (snd (after_onFailure fb r)) = snd r"
  by (simp add: after_onFailure_def split: prod.splits option.splits)

lemma breaker_inv_execute:
  assumes "breaker_inv cfg b"
  shows "breaker_inv cfg (snd (snd (execute cfg now op settled fb b)))"
proof (cases "state b = OPEN \<and> \<not> shouldAttemptRecovery cfg now b")
  case True
  then show ?thesis using assms by (simp add: execute_def)
next
  case False
  let ?b1 = "if state b = OPEN then b\<lparr>state := HALF_OPEN\<rparr> else b"
  have b1: "breaker_inv cfg ?b1"
    using assms by (auto simp: breaker_inv_def)
  show ?thesis
  proof (cases op)
    case (Resolved r)
    then show ?thesis
      using False breaker_inv_onSuccess[OF b1] by (auto simp: execute_def Let_def)
  next
    case (Rejected e)
    then show ?thesis
      using False breaker_inv_onFailure[OF b1, of settled "Some e"]
      by (auto simp: execute_def Let_def after_onFailure_breaker)
  next
    case RejectedNullish
    then show ?thesis
      using False breaker_inv_onFailure[OF b1, of settled None]
      by (auto simp: execute_def Let_def after_onFailure_breaker)
  qed
qed

lemma breaker_inv_run: "breaker_inv cfg b \<Longrightarrow> breaker_inv cfg (snd (run_calls cfg fb b cs))"
proof (induction cs arbitrary: b)
  case Nil
  then show ?case by simp
next
  case (Cons c cs)
  obtain r i b1 where ex: "execute cfg (calledAt c) (outcome_of c) (settledAt c) fb b = (r, i, b1)"
    by (cases "execute cfg (calledAt c) (outcome_of c) (settledAt c) fb b") auto
  have "breaker_inv cfg b1"
    using breaker_inv_execute[OF Cons.prems, of "calledAt c" "outcome_of c" "settledAt c" fb]
    by (simp add: ex)
  from Cons.IH[OF this] show ?case by (auto simp: ex split: prod.splits)
qed

lemma half_open_failure_reopens:
  assumes "breaker_inv cfg b" and "state b = HALF_OPEN"
  shows "\<exists>b'. execute cfg now (Rejected e) settled fb b = (executeFallback fb, True, b') \<and>
              state b' = OPEN \<and> lastFailureTime b' = Some settled"
proof -
  have "failureThreshold cfg \<le> int (failureCount b)"
    using assms by (simp add: breaker_inv_def)
  then have "state (snd (onFailure cfg settled (Some e) b)) = OPEN"
    by (simp add: onFailure_state)
  moreover have "execute cfg now (Rejected e) settled fb b =
      (executeFallback fb, True, snd (onFailure cfg settled (Some e) b))"
    using execute_rejected[of b cfg now e settled fb] assms(2) by simp
  ultimately show ?thesis by (simp add: onFailure_lastFailureTime)
qed

section \<open>SmartCircuitBreaker\<close>

lemma recordFailure_failures:
  assumes "0 < monitoringWindow cfg"
  shows "failures (recordFailure cfg now err dur b) =
           filter (\<lambda>f. timestamp f > now - monitoringWindow cfg) (failures b) @
           [\<lparr>timestamp = now, duration = dur, failure_message = message err,
             failure_type = ename err\<rparr>]"
  using assms
  by (simp add: recordFailure_def Let_def cleanupOldRecords_def analyzeErrorPattern_def
      smart_openCircuit_def)

lemma recordFailure_successes:
  "set (successes (recordFailure cfg now err dur b)) \<subseteq> set (successes b)"
  by (auto simp: recordFailure_def Let_def cleanupOldRecords_def analyzeErrorPattern_def
      smart_openCircuit_def)

lemma recordFailure_state:
  assumes "0 < monitoringWindow cfg"
  shows "state (recordFailure cfg now err dur b) =
           (if failureThreshold cfg \<le> int (length (failures (recordFailure cfg now err dur b)))
            then OPEN else state b)"
proof -
  let ?keep = "filter (\<lambda>f. timestamp f > now - monitoringWindow cfg) (failures b)"
  have "filter (\<lambda>f. now - timestamp f < monitoringWindow cfg) ?keep = ?keep"
    by (rule filter_True) auto
  then show ?thesis
    using assms
    by (simp add: recordFailure_def Let_def cleanupOldRecords_def analyzeErrorPattern_def
        smart_openCircuit_def smart_shouldOpenCircuit_def)
qed

lemmas smart_eval =
  smart_execute_def recordFailure_def recordSuccess_def analyzeErrorPattern_def
  cleanupOldRecords_def smart_shouldOpenCircuit_def smart_shouldAttemptRecovery_def
  smart_openCircuit_def executeGracefulFallback_def race_def SmartCircuitBreaker_new_def
  smart_test_config_def smart_summary_def timeoutError_def Let_def

text \<open>
  Claim C5 (the code departs from it). In \<open>CircuitBreaker\<close> a failure in \<open>HALF_OPEN\<close>
  re-opens the breaker (lemma \<open>half_open_failure_reopens\<close>). \<open>SmartCircuitBreaker\<close>
  opens only when the failures inside the monitoring window reach the threshold: after two
  failures the breaker is \<open>OPEN\<close>; the probe 70 s later puts it in \<open>HALF_OPEN\<close> and
  fails, the two old failures are pruned, one failure is left, and the breaker stays
  \<open>HALF_OPEN\<close>. The next call, 10 ms later, is let through again.
\<close>

theorem smart_half_open_failure_stays_half_open:
  "smart_summary (smart_run_calls smart_test_config () SmartCircuitBreaker_new (take 2 late_probe))
     = Some ([True, True], OPEN, [10, 1010]) \<and>
   smart_summary (smart_run_calls smart_test_config () SmartCircuitBreaker_new (take 3 late_probe))
     = Some ([True, True, True], HALF_OPEN, [70010]) \<and>
   smart_summary (smart_run_calls smart_test_config () SmartCircuitBreaker_new late_probe)
     = Some ([True, True, True, True], OPEN, [70010, 70030])"
  by (simp add: smart_eval failing_call_def late_probe_def test_failure_def)

text \<open>
  Claim C4, as stated, fails: a call whose operation is cancelled in flight and rejects
  with an \<open>AbortError\<close> goes through \<open>recordFailure\<close>; with \<open>failureThreshold = 1\<close>
  that single cancelled call opens the breaker.
\<close>

theorem cancelled_operation_counts_as_failure:
  "smart_summary (smart_run_calls (smart_test_config\<lparr>failureThreshold := 1\<rparr>) ()
      SmartCircuitBreaker_new [cancelled_call]) = Some ([True], OPEN, [10])"
  by (simp add: smart_eval cancelled_call_def abortError_def)

text \<open>
  Claim C4, amended. \<open>execute\<close> has no outcome for a cancellation. When a call that was
  let through ends because the race rejects, with whatever error, an \<open>AbortError\<close>
  included, it returns the degraded fallback and the breaker is the one \<open>recordFailure\<close>
  leaves: with a positive monitoring window the failure is appended to the pruned failure
  history, no success is recorded, and the breaker is open once the history holds
  \<open>failureThreshold\<close> entries.
\<close>

theorem rejection_by_cancellation_is_recorded:
  assumes "\<not> (state b = OPEN \<and> \<not> smart_shouldAttemptRecovery cfg now b)"
    and "race fl aborted = Some (Rejected err)"
    and "0 < monitoringWindow cfg"
  shows "\<exists>b'. smart_execute cfg now fl aborted settled dur c b =
                 Some (Degraded (executeGracefulFallback c (Some err)), True, b') \<and>
              b' = recordFailure cfg settled err dur
                     (if state b = OPEN then b\<lparr>state := HALF_OPEN\<rparr> else b) \<and>
              failures b' =
                filter (\<lambda>f. timestamp f > settled - monitoringWindow cfg) (failures b) @
                [\<lparr>timestamp = settled, duration = dur, failure_message = message err,
                  failure_type = ename err\<rparr>] \<and>
              set (successes b') \<subseteq> set (successes b) \<and>
              (failureThreshold cfg \<le> int (length (failures b')) \<longrightarrow> state b' = OPEN)"
proof -
  let ?b1 = "if state b = OPEN then b\<lparr>state := HALF_OPEN\<rparr> else b"
  let ?b' = "recordFailure cfg settled err dur ?b1"
  have ex: "smart_execute cfg now fl aborted settled dur c b =
      Some (Degraded (executeGracefulFallback c (Some err)), True, ?b')"
    using assms(1,2) by (auto simp: smart_execute_def Let_def)
  have f: "failures ?b' =
      filter (\<lambda>f. timestamp f > settled - monitoringWindow cfg) (failures b) @
      [\<lparr>timestamp = settled, duration = dur, failure_message = message err,
        failure_type = ename err\<rparr>]"
    using recordFailure_failures[OF assms(3), of settled err dur ?b1] by simp
  have s: "set (successes ?b') \<subseteq> set (successes b)"
    using recordFailure_successes[of cfg settled err dur ?b1] by (simp split: if_splits)
  have o: "failureThreshold cfg \<le> int (length (failures ?b')) \<longrightarrow> state ?b' = OPEN"
    using recordFailure_state[OF assms(3), of settled err dur ?b1] by simp
  show ?thesis using ex f s o by blast
qed

theorem rejection_by_cancellation_is_recorded_witness:
  "\<exists>b'. smart_execute (smart_test_config\<lparr>failureThreshold := 1\<rparr>) 0
            (SettlesLate (Rejected abortError) :: string flight) True 7000 7000 () SmartCircuitBreaker_new =
            Some (Degraded (executeGracefulFallback () (Some abortError)), True, b') \<and>
         failures b' =
           [\<lparr>timestamp = 7000, duration = 7000, failure_message = ''The operation was aborted'',
             failure_type = ''AbortError''\<rparr>] \<and>
         state b' = OPEN"
proof -
  let ?cfg = "smart_test_config\<lparr>failureThreshold := 1\<rparr>"
  have h1: "\<not> (state SmartCircuitBreaker_new = OPEN \<and>
              \<not> smart_shouldAttemptRecovery ?cfg 0 SmartCircuitBreaker_new)"
    by (simp add: SmartCircuitBreaker_new_def)
  have h2: "race (SettlesLate (Rejected abortError) :: string flight) True =
      Some (Rejected abortError)"
    by (simp add: race_def)
  have h3: "0 < monitoringWindow ?cfg" by (simp add: smart_test_config_def)
  from rejection_by_cancellation_is_recorded[OF h1 h2 h3, of 7000 7000 "()"]
  obtain b' where
    ex: "smart_execute ?cfg 0 (SettlesLate (Rejected abortError) :: string flight) True 7000 7000 ()
           SmartCircuitBreaker_new =
         Some (Degraded (executeGracefulFallback () (Some abortError)), True, b')"
    and f: "failures b' =
         filter (\<lambda>f. timestamp f > 7000 - monitoringWindow ?cfg)
           (failures SmartCircuitBreaker_new) @
         [\<lparr>timestamp = 7000, duration = 7000, failure_message = message abortError,
           failure_type = ename abortError\<rparr>]"
    and o: "failureThreshold ?cfg \<le> int (length (failures b')) \<longrightarrow> state b' = OPEN"
    by (elim exE conjE) (rule that)
  have f': "failures b' =
      [\<lparr>timestamp = 7000, duration = 7000, failure_message = ''The operation was aborted'',
        failure_type = ''AbortError''\<rparr>]"
    using f by (simp add: SmartCircuitBreaker_new_def abortError_def)
  have "state b' = OPEN" using o f' by (simp add: smart_test_config_def)
  then show ?thesis using ex f' by (intro exI[of _ b'] conjI)
qed

section \<open>Throttling\<close>

text \<open>
  Claim C9, as stated, fails: with skip probability 0 the draw 0, which \<open>Math.random()\<close>
  can return, does not exceed it, and \<open>shouldProcessResize\<close> refuses. And
  \<open>shouldProcessFrame\<close>, at the default rate 0.98, refuses the draw 0.99 although it
  exceeds the rate.
\<close>

theorem draw_zero_refused_at_rate_zero:
  "\<not> shouldProcessResize \<lparr>throttleRate = 0, performanceBudget = 16\<rparr> 0 \<and>
   \<not> fst (shouldProcessFrame 16 (99 / 100) (optimizer (98 / 100)))"
  by (simp add: shouldProcessResize_def shouldProcessFrame_def effectiveThrottleRate_def
      calculateAdaptiveThrottling_def optimizer_def Let_def)

lemma effectiveThrottleRate_frame_fields:
  "effectiveThrottleRate (po\<lparr>frameCount := n\<rparr>) = effectiveThrottleRate po"
  "effectiveThrottleRate (po\<lparr>frameCount := n, fps := f\<rparr>) = effectiveThrottleRate po"
  by (simp_all add: effectiveThrottleRate_def calculateAdaptiveThrottling_def)

lemma shouldProcessFrame_iff:
  "fst (shouldProcessFrame t r po) \<longleftrightarrow> r \<le> 1 - effectiveThrottleRate po"
  by (simp add: shouldProcessFrame_def Let_def effectiveThrottleRate_frame_fields not_less)

text \<open>
  Claim C9, amended. \<open>shouldProcessResize\<close> proceeds exactly when the draw \<open>r\<close> exceeds
  the throttle rate \<open>p\<close>; with \<open>p = 0\<close> it proceeds for every draw \<open>r > 0\<close> and
  refuses \<open>r = 0\<close>. \<open>shouldProcessFrame\<close> proceeds exactly when \<open>r\<close> is at most one
  minus the effective throttle rate; with an effective rate of 0 it proceeds for every
  draw in \<open>[0, 1)\<close>.
\<close>

theorem permit_conditions:
  "(shouldProcessResize cfg r \<longleftrightarrow> r > throttleRate cfg) \<and>
   (throttleRate cfg = 0 \<and> 0 < r \<longrightarrow> shouldProcessResize cfg r) \<and>
   (throttleRate cfg = 0 \<longrightarrow> \<not> shouldProcessResize cfg 0) \<and>
   (fst (shouldProcessFrame t r po) \<longleftrightarrow> r \<le> 1 - effectiveThrottleRate po) \<and>
   (effectiveThrottleRate po = 0 \<and> 0 \<le> r \<and> r < 1 \<longrightarrow> fst (shouldProcessFrame t r po))"
  using shouldProcessFrame_iff[of t r po] by (auto simp: shouldProcessResize_def)

theorem permit_conditions_witness:
  "shouldProcessResize \<lparr>throttleRate = 0, performanceBudget = 16\<rparr> (1 / 2) \<and>
   \<not> shouldProcessResize \<lparr>throttleRate = 0, performanceBudget = 16\<rparr> 0 \<and>
   fst (shouldProcessFrame 16 0 (optimizer 0)) \<and>
   \<not> fst (shouldProcessFrame 16 (1 / 2) (optimizer (98 / 100)))"
proof -
  let ?cfg = "\<lparr>throttleRate = 0, performanceBudget = 16\<rparr>"
  have e0: "effectiveThrottleRate (optimizer 0) = 0"
    by (simp add: effectiveThrottleRate_def calculateAdaptiveThrottling_def optimizer_def)
  have e98: "effectiveThrottleRate (optimizer (98 / 100)) = 98 / 100"
    by (simp add: effectiveThrottleRate_def calculateAdaptiveThrottling_def optimizer_def)
  have c: "throttleRate ?cfg = 0" by simp
  show ?thesis
    using permit_conditions[of ?cfg "1 / 2" 16 "optimizer (98 / 100)"]
      permit_conditions[of ?cfg 0 16 "optimizer 0"] e0 e98 c
    by simp
qed

section \<open>Choice of the processing backend\<close>

lemmas process_eval =
  process_element_def processWithGPU_def processWithWorker_def processWithCPU_def
  processGeometry_def selected_method_def selected_fails_def

text \<open>
  Claim C3, as stated, fails: the GPU backend is selected, its \<open>processGeometry\<close> returns
  \<open>null\<close>, and the element is processed by the CPU backend instead; the result reports
  the method \<open>cpu\<close>. The same happens when the worker backend is selected and its call
  rejects.
\<close>

theorem failed_gpu_switches_to_cpu:
  "selected_method gpu_fails default_element_config = ''gpu'' \<and>
   process_element gpu_fails default_element_config no_metrics =
     (Some \<lparr>process_success = True, process_method = ''cpu'', process_data = ''from cpu''\<rparr>,
      no_metrics, [''gpu'', ''cpu'']) \<and>
   selected_method worker_fails default_element_config = ''worker'' \<and>
   process_element worker_fails default_element_config no_metrics =
     (Some \<lparr>process_success = True, process_method = ''cpu'', process_data = ''from cpu''\<rparr>,
      no_metrics, [''worker'', ''cpu''])"
  by (simp add: process_eval gpu_fails_def worker_fails_def default_element_config_def)

text \<open>
  Claim C3, amended. When the selected backend fails (the GPU processor returns \<open>null\<close>,
  the worker call rejects) the CPU backend is run in its place, once, and the outcome is
  the one of \<open>processWithCPU\<close>: a result that reports the method \<open>cpu\<close> when its
  animation-frame callback completes, and a promise that never settles when it does not.
  Otherwise only the selected backend runs, and a result, if there is one, reports it. No
  backend is run twice: the failed backend is not retried.
\<close>

theorem failed_backend_falls_back_to_cpu:
  "(selected_fails p ec \<longrightarrow>
      process_element p ec m = (fst (processWithCPU p m), m, [selected_method p ec, ''cpu'']) \<and>
      (case fst (process_element p ec m) of
         None \<Rightarrow> cpuData p = None
       | Some r \<Rightarrow> process_method r = ''cpu'' \<and> cpuData p = Some (process_data r))) \<and>
   (\<not> selected_fails p ec \<longrightarrow>
      snd (snd (process_element p ec m)) = [selected_method p ec] \<and>
      (case fst (process_element p ec m) of
         None \<Rightarrow> selected_method p ec = ''cpu'' \<and> cpuData p = None
       | Some r \<Rightarrow> process_method r = selected_method p ec)) \<and>
   distinct (snd (snd (process_element p ec m)))"
  by (auto simp: process_eval split: option.splits outcome.splits)

theorem failed_backend_falls_back_to_cpu_witness:
  "selected_fails gpu_fails default_element_config \<and>
   process_element gpu_fails default_element_config no_metrics =
     (Some \<lparr>process_success = True, process_method = ''cpu'', process_data = ''from cpu''\<rparr>,
      no_metrics, [''gpu'', ''cpu'']) \<and>
   selected_fails (gpu_fails\<lparr>cpuData := None\<rparr>) default_element_config \<and>
   process_element (gpu_fails\<lparr>cpuData := None\<rparr>) default_element_config no_metrics =
     (None, no_metrics, [''gpu'', ''cpu'']) \<and>
   \<not> selected_fails (gpu_fails\<lparr>gpuGeometry := Some ''from gpu''\<rparr>) default_element_config \<and>
   snd (snd (process_element (gpu_fails\<lparr>gpuGeometry := Some ''from gpu''\<rparr>)
       default_element_config no_metrics)) = [''gpu'']"
proof -
  have f: "selected_fails gpu_fails default_element_config"
    "selected_fails (gpu_fails\<lparr>cpuData := None\<rparr>) default_element_config"
    "selected_method gpu_fails default_element_config = ''gpu''"
    "selected_method (gpu_fails\<lparr>cpuData := None\<rparr>) default_element_config = ''gpu''"
    by (simp_all add: selected_fails_def selected_method_def gpu_fails_def
        default_element_config_def)
  have c: "fst (processWithCPU gpu_fails no_metrics) =
      Some \<lparr>process_success = True, process_method = ''cpu'', process_data = ''from cpu''\<rparr>"
    "fst (processWithCPU (gpu_fails\<lparr>cpuData := None\<rparr>) no_metrics) = None"
    by (simp_all add: processWithCPU_def gpu_fails_def)
  have g: "\<not> selected_fails (gpu_fails\<lparr>gpuGeometry := Some ''from gpu''\<rparr>)
      default_element_config"
    "selected_method (gpu_fails\<lparr>gpuGeometry := Some ''from gpu''\<rparr>) default_element_config
      = ''gpu''"
    by (simp_all add: selected_fails_def selected_method_def gpu_fails_def
        default_element_config_def)
  show ?thesis
    using failed_backend_falls_back_to_cpu[of gpu_fails default_element_config no_metrics]
      failed_backend_falls_back_to_cpu[of "gpu_fails\<lparr>cpuData := None\<rparr>"
        default_element_config no_metrics]
      failed_backend_falls_back_to_cpu[of "gpu_fails\<lparr>gpuGeometry := Some ''from gpu''\<rparr>"
        default_element_config no_metrics] f c g
    by simp
qed


end
